theory Spec2Isabelle
  imports Complex_Main
begin

section \<open>Numeric model\<close>

text \<open>
  The two notebooks compute with NumPy arrays of IEEE doubles. Arithmetic on finite
  values is idealised here as exact arithmetic on \<open>real\<close> (no rounding, no overflow).
  The non-finite values the code can produce (the mean of an empty selection, the
  logarithm of zero) are explicit constructors of \<open>npfloat\<close>. A one-dimensional array
  is a list, a two-dimensional array a list of rows. The notebooks' global variables
  (\<open>train_data\<close>, \<open>train_labels\<close>, \<open>mu\<close>, \<open>sigma\<close>, \<open>pi\<close>, \<open>test_data\<close>,
  \<open>test_labels\<close>) are explicit arguments.
\<close>

type_synonym vec = "real list"
type_synonym matrix = "real list list"

datatype npfloat = Val real | NaN | PosInf | NegInf

text \<open>The exceptions the code can raise, named as Python names them.\<close>

datatype error =
    ValueError_broadcast
  | ValueError_empty_sequence
  | IndexError
  | ZeroDivisionError
  | LibraryError

section \<open>Nearest neighbour notebook\<close>

subsection \<open>squared\_dist\<close>

text \<open>
  \<^verbatim>\<open>x - y\<close> on two one-dimensional arrays follows NumPy's broadcasting: equal lengths
  subtract element by element, an array of length one is stretched to the other's
  length, and any other pair of lengths raises ValueError.
\<close>

definition np_subtract :: "vec \<Rightarrow> vec \<Rightarrow> error + vec" where
  "np_subtract x y =
     (if length x = length y then Inr (map2 (-) x y)
      else if length x = 1 then Inr (map (\<lambda>b. hd x - b) y)
      else if length y = 1 then Inr (map (\<lambda>a. a - hd y) x)
      else Inl ValueError_broadcast)"

definition np_square :: "vec \<Rightarrow> vec" where
  "np_square v = map (\<lambda>t. t * t) v"

definition np_sum :: "vec \<Rightarrow> real" where
  "np_sum v = sum_list v"

text \<open>\<^verbatim>\<open>def squared_dist(x,y): return np.sum(np.square(x-y))\<close>\<close>

definition squared_dist :: "vec \<Rightarrow> vec \<Rightarrow> error + real" where
  "squared_dist x y =
     (case np_subtract x y of
        Inl e \<Rightarrow> Inl e
      | Inr v \<Rightarrow> Inr (np_sum (np_square v)))"

subsection \<open>find\_NN and NN\_classifier\<close>

text \<open>
  Indexing along the first axis (\<^verbatim>\<open>train_data[i,]\<close>, \<^verbatim>\<open>train_labels[index]\<close>, and in the
  other notebook \<^verbatim>\<open>mu[label]\<close>, \<^verbatim>\<open>pi[label]\<close>, \<^verbatim>\<open>test_data[i,:]\<close>) with an index that
  is not negative: IndexError beyond the last entry.
\<close>

definition row_at :: "'a list \<Rightarrow> nat \<Rightarrow> error + 'a" where
  "row_at m i = (if i < length m then Inr (m ! i) else Inl IndexError)"

text \<open>
  A list comprehension \<^verbatim>\<open>[f(i) for i in ...]\<close>: the elements are computed in order and
  the first exception ends the evaluation.
\<close>

fun comprehension :: "(nat \<Rightarrow> error + 'a) \<Rightarrow> nat list \<Rightarrow> error + 'a list" where
  "comprehension f [] = Inr []"
| "comprehension f (i # is) =
     (case f i of
        Inl e \<Rightarrow> Inl e
      | Inr d \<Rightarrow>
          (case comprehension f is of
             Inl e \<Rightarrow> Inl e
           | Inr ds \<Rightarrow> Inr (d # ds)))"

text \<open>
  \<^verbatim>\<open>np.argmin\<close> scans once, keeping the smallest value seen and its index, and replaces
  them only by a strictly smaller value; on an empty sequence it raises ValueError.
\<close>

fun argmin_loop :: "real list \<Rightarrow> nat \<Rightarrow> real \<Rightarrow> nat \<Rightarrow> nat" where
  "argmin_loop [] i mp mi = mi"
| "argmin_loop (a # as) i mp mi =
     (if a < mp then argmin_loop as (Suc i) a i else argmin_loop as (Suc i) mp mi)"

definition np_argmin :: "real list \<Rightarrow> error + nat" where
  "np_argmin ds =
     (case ds of
        [] \<Rightarrow> Inl ValueError_empty_sequence
      | a # as \<Rightarrow> Inr (argmin_loop as 1 a 0))"

text \<open>
  \<^verbatim>\<open>
  def find_NN(x):
      distances = [squared_dist(x,train_data[i,]) for i in range(len(train_labels))]
      return np.argmin(distances)
  \<close>
\<close>

definition distance_to_row :: "matrix \<Rightarrow> vec \<Rightarrow> nat \<Rightarrow> error + real" where
  "distance_to_row train_data x i =
     (case row_at train_data i of
        Inl e \<Rightarrow> Inl e
      | Inr r \<Rightarrow> squared_dist x r)"

definition find_NN :: "matrix \<Rightarrow> nat list \<Rightarrow> vec \<Rightarrow> error + nat" where
  "find_NN train_data train_labels x =
     (case comprehension (distance_to_row train_data x) [0..<length train_labels] of
        Inl e \<Rightarrow> Inl e
      | Inr distances \<Rightarrow> np_argmin distances)"

text \<open>
  \<^verbatim>\<open>
  def NN_classifier(x):
      index = find_NN(x)
      return train_labels[index]
  \<close>
\<close>

definition NN_classifier :: "matrix \<Rightarrow> nat list \<Rightarrow> vec \<Rightarrow> error + nat" where
  "NN_classifier train_data train_labels x =
     (case find_NN train_data train_labels x of
        Inl e \<Rightarrow> Inl e
      | Inr index \<Rightarrow> row_at train_labels index)"

text \<open>
  The distance as the specification words it: the sum of the squared element-wise
  differences of two vectors of the same length.
\<close>

definition sum_squared_differences :: "vec \<Rightarrow> vec \<Rightarrow> real" where
  "sum_squared_differences x y = (\<Sum>k<length x. (x ! k - y ! k)^2)"

section \<open>Gaussian generative model notebook\<close>

subsection \<open>Array operations\<close>

text \<open>
  Addition and comparison of doubles. NaN absorbs every sum and compares false with
  everything; the sum of the two infinities is NaN.
\<close>

fun fadd :: "npfloat \<Rightarrow> npfloat \<Rightarrow> npfloat" where
  "fadd (Val a) (Val b) = Val (a + b)"
| "fadd NaN _ = NaN"
| "fadd _ NaN = NaN"
| "fadd PosInf NegInf = NaN"
| "fadd NegInf PosInf = NaN"
| "fadd PosInf _ = PosInf"
| "fadd _ PosInf = PosInf"
| "fadd NegInf _ = NegInf"
| "fadd _ NegInf = NegInf"

fun fle :: "npfloat \<Rightarrow> npfloat \<Rightarrow> bool" where
  "fle NaN _ = False"
| "fle _ NaN = False"
| "fle NegInf _ = True"
| "fle _ PosInf = True"
| "fle (Val a) (Val b) = (a \<le> b)"
| "fle PosInf _ = False"
| "fle _ NegInf = False"

text \<open>\<^verbatim>\<open>np.log\<close> of a finite double: minus infinity at zero, NaN below zero.\<close>

definition np_log :: "real \<Rightarrow> npfloat" where
  "np_log p = (if 0 < p then Val (ln p) else if p = 0 then NegInf else NaN)"

text \<open>
  \<^verbatim>\<open>x[indices,:]\<close> with a boolean mask: the rows whose mask entry is true, in order. An
  empty mask selects no rows, whatever the array; any other mask whose length is not the
  number of rows raises IndexError.
\<close>

definition boolean_index :: "bool list \<Rightarrow> matrix \<Rightarrow> error + matrix" where
  "boolean_index indices x =
     (if indices = [] then Inr []
      else if length indices = length x then Inr (map snd (filter fst (zip indices x)))
      else Inl IndexError)"

definition column :: "matrix \<Rightarrow> nat \<Rightarrow> vec" where
  "column rows a = map (\<lambda>r. r ! a) rows"

text \<open>
  \<^verbatim>\<open>np.mean(rows, axis=0)\<close> for an array of shape \<open>(n, d)\<close>: the column sums divided by
  \<open>n\<close>; with no rows every entry is \<open>0/0\<close>, NaN.
\<close>

definition np_mean :: "nat \<Rightarrow> matrix \<Rightarrow> npfloat list" where
  "np_mean d rows =
     (if rows = [] then replicate d NaN
      else map (\<lambda>a. Val (sum_list (column rows a) / real (length rows))) [0..<d])"

text \<open>
  \<^verbatim>\<open>np.cov(rows, rowvar=0, bias=1)\<close> for an array of shape \<open>(n, d)\<close>, as the NumPy of
  the notebooks' recorded environment (Python 3.9.12, NumPy 1.x) computes it:
  \<^verbatim>\<open>
  X = array(m, ndmin=2, dtype=dtype)
  if not rowvar and X.shape[0] != 1:
      X = X.T
  avg = average(X, axis=1)
  fact = X.shape[1] - ddof          # ddof = 0 for bias=1; fact = 0.0 if fact <= 0
  X -= avg[:, None]
  c = dot(X, X.T)
  c *= np.true_divide(1, fact)
  return c.squeeze()
  \<close>
  The array is transposed to one row per variable, except when it has exactly one row:
  that row is then taken as the observations of a single variable. The average of every
  variable is subtracted, the centred array is multiplied with its transpose and the
  product is scaled by one over the number of observations (\<open>bias=1\<close>: the count, not
  the count minus one). With no observation the scale is \<open>1/0\<close> and every entry is
  NaN. (NumPy 2 transposes an array of one row as well.) \<open>np_cov\<close> is the product
  before \<^verbatim>\<open>squeeze\<close>, \<open>d\<close> the number of columns of the array.
\<close>

definition np_cov :: "nat \<Rightarrow> matrix \<Rightarrow> npfloat list list" where
  "np_cov d rows =
     (let n = length rows;
          X = (if n \<noteq> 1 then map (column rows) [0..<d] else rows);
          fact = (if n \<noteq> 1 then n else d);
          avg = map (\<lambda>v. sum_list v / real fact) X;
          Xc = map2 (\<lambda>v m. map (\<lambda>t. t - m) v) X avg;
          c = map (\<lambda>u. map (\<lambda>v. sum_list (map2 (*) u v)) Xc) Xc
      in if fact = 0 then map (map (\<lambda>t. NaN)) c
         else map (map (\<lambda>t. Val (t * (1 / real fact)))) c)"

text \<open>
  \<^verbatim>\<open>c.squeeze()\<close> drops the axes of length one, so that a \<open>1 \<times> 1\<close> product is a
  scalar; the assignment \<^verbatim>\<open>sigma[label] = ...\<close> stores a \<open>d \<times> d\<close> matrix as it is and
  fills the \<open>d \<times> d\<close> block with a scalar.
\<close>

datatype squeezed = Scalar npfloat | Matrix "npfloat list list"

definition np_squeeze :: "npfloat list list \<Rightarrow> squeezed" where
  "np_squeeze c = (case c of [[s]] \<Rightarrow> Scalar s | _ \<Rightarrow> Matrix c)"

fun assign_block :: "nat \<Rightarrow> squeezed \<Rightarrow> npfloat list list" where
  "assign_block d (Scalar s) = replicate d (replicate d s)"
| "assign_block d (Matrix c) = c"

text \<open>\<^verbatim>\<open>float(a)/float(b)\<close> in Python raises ZeroDivisionError for \<open>b = 0\<close>.\<close>

definition py_float_div :: "nat \<Rightarrow> nat \<Rightarrow> error + real" where
  "py_float_div a b = (if b = 0 then Inl ZeroDivisionError else Inr (real a / real b))"

definition np_identity :: "nat \<Rightarrow> matrix" where
  "np_identity n = map (\<lambda>a. map (\<lambda>b. if a = b then 1 else 0) [0..<n]) [0..<n]"

definition np_scale :: "real \<Rightarrow> matrix \<Rightarrow> matrix" where
  "np_scale c M = map (map (\<lambda>t. c * t)) M"

text \<open>
  \<^verbatim>\<open>sigma += M\<close> for \<open>sigma\<close> of shape \<open>(k, d, d)\<close> and a square matrix \<open>M\<close>: the
  matrix is added to every \<open>sigma[j]\<close>. The addition is in place, so the shapes
  \<open>(d, d)\<close> and that of \<open>M\<close> must agree; otherwise NumPy raises ValueError.
\<close>

definition np_iadd :: "nat \<Rightarrow> npfloat list list list \<Rightarrow> matrix \<Rightarrow> error + npfloat list list list" where
  "np_iadd d sigma M =
     (if d = length M then Inr (map (\<lambda>S. map2 (map2 (\<lambda>s m. fadd s (Val m))) S M) sigma)
      else Inl ValueError_broadcast)"

text \<open>
  \<^verbatim>\<open>x.shape[1]\<close>. A matrix is a list of rows here, so an array without rows has lost
  its column count; \<open>fit_generative_model\<close> raises on such an array before the count
  is used.
\<close>

definition shape1 :: "matrix \<Rightarrow> nat" where
  "shape1 x = (case x of [] \<Rightarrow> 0 | r # _ \<Rightarrow> length r)"

subsection \<open>fit\_generative\_model\<close>

text \<open>
  \<^verbatim>\<open>
  def fit_generative_model(x,y):
      k = 10  # labels 0,1,...,k-1
      d = (x.shape)[1]  # number of features
      mu = np.zeros((k,d))
      sigma = np.zeros((k,d,d))
      pi = np.zeros(k)
      I = np.identity(784)
      for label in range(0,k):
          indices = (y == label)
          mu[label] = np.mean(x[indices,:], axis=0)
          sigma[label] = np.cov(x[indices,:], rowvar=0, bias=1)
          pi[label] = float(sum(indices))/float(len(y))
      #regularization
      sigma += 3100*I
      return mu, sigma, pi
  \<close>
  The array \<open>pi\<close> is called \<open>pis\<close> here (\<open>pi\<close> is the circle constant of the
  library). The labels \<open>y\<close> are unsigned bytes, modelled as natural numbers. The
  selection \<^verbatim>\<open>x[indices,:]\<close> is written once: its second evaluation gives the same rows.
\<close>

type_synonym gaussian_models = "npfloat list list \<times> npfloat list list list \<times> real list"

fun fit_loop :: "matrix \<Rightarrow> nat list \<Rightarrow> nat \<Rightarrow> nat list \<Rightarrow> gaussian_models
    \<Rightarrow> error + gaussian_models" where
  "fit_loop x y d [] state = Inr state"
| "fit_loop x y d (label # labels) (mu, sigma, pis) =
     (let indices = map (\<lambda>v. v = label) y in
      case boolean_index indices x of
        Inl e \<Rightarrow> Inl e
      | Inr selected \<Rightarrow>
          (case py_float_div (length (filter id indices)) (length y) of
             Inl e \<Rightarrow> Inl e
           | Inr p \<Rightarrow>
               fit_loop x y d labels
                 (mu[label := np_mean d selected],
                  sigma[label := assign_block d (np_squeeze (np_cov d selected))],
                  pis[label := p])))"

text \<open>
  The function is written in two parts, split at its comment \<^verbatim>\<open>#regularization\<close>:
  \<open>unregularized_fit\<close> is the state after the loop, \<open>fit_generative_model\<close> adds
  \<^verbatim>\<open>3100*I\<close> to it and returns.
\<close>

definition unregularized_fit :: "matrix \<Rightarrow> nat list \<Rightarrow> error + gaussian_models" where
  "unregularized_fit x y =
     (let k = 10;
          d = shape1 x;
          mu = replicate k (replicate d (Val 0));
          sigma = replicate k (replicate d (replicate d (Val 0)));
          pis = replicate k 0
      in fit_loop x y d [0..<k] (mu, sigma, pis))"

definition fit_generative_model :: "matrix \<Rightarrow> nat list \<Rightarrow> error + gaussian_models" where
  "fit_generative_model x y =
     (let d = shape1 x;
          I = np_identity 784
      in case unregularized_fit x y of
           Inl e \<Rightarrow> Inl e
         | Inr (mu, sigma, pis) \<Rightarrow>
             (case np_iadd d sigma (np_scale 3100 I) of
                Inl e \<Rightarrow> Inl e
              | Inr sigma' \<Rightarrow> Inr (mu, sigma', pis)))"

subsection \<open>The scoring cell\<close>

text \<open>
  \<^verbatim>\<open>np.argmax\<close> along a row: one scan that keeps the largest value seen and its index and
  replaces them only by a value that is not below-or-equal; a NaN counts as the largest
  value and ends the scan.
\<close>

fun argmax_loop :: "npfloat list \<Rightarrow> nat \<Rightarrow> npfloat \<Rightarrow> nat \<Rightarrow> nat" where
  "argmax_loop [] i mp mi = mi"
| "argmax_loop (a # as) i mp mi =
     (if \<not> fle a mp then (if a = NaN then i else argmax_loop as (Suc i) a i)
      else argmax_loop as (Suc i) mp mi)"

definition np_argmax :: "npfloat list \<Rightarrow> error + nat" where
  "np_argmax s =
     (case s of
        [] \<Rightarrow> Inl ValueError_empty_sequence
      | a # as \<Rightarrow> Inr (if a = NaN then 0 else argmax_loop as 1 a 0))"

text \<open>
  \<^verbatim>\<open>
  k = 10
  score = np.zeros((len(test_labels),k))
  for label in range(0,k):
      rv = multivariate_normal(mean=mu[label], cov=sigma[label])
      for i in range(0,len(test_labels)):
         score[i,label] = np.log(pi[label]) + rv.logpdf(test_data[i,:])
  predictions = np.argmax(score, axis=1)
  \<close>
  \<open>multivariate_normal\<close> is SciPy's; it is a parameter of the model: given a mean and
  a covariance it raises or returns the frozen distribution, represented by its
  \<open>logpdf\<close> method, which raises or returns a double.
\<close>

type_synonym frozen_distribution = "vec \<Rightarrow> error + npfloat"

fun score_row_loop :: "frozen_distribution \<Rightarrow> real list \<Rightarrow> matrix \<Rightarrow> nat \<Rightarrow> nat list
    \<Rightarrow> npfloat list list \<Rightarrow> error + npfloat list list" where
  "score_row_loop rv pis test_data label [] score = Inr score"
| "score_row_loop rv pis test_data label (i # is) score =
     (case row_at pis label of
        Inl e \<Rightarrow> Inl e
      | Inr p \<Rightarrow>
          (case row_at test_data i of
             Inl e \<Rightarrow> Inl e
           | Inr t \<Rightarrow>
               (case rv t of
                  Inl e \<Rightarrow> Inl e
                | Inr l \<Rightarrow>
                    score_row_loop rv pis test_data label is
                      (score[i := (score ! i)[label := fadd (np_log p) l]]))))"

fun score_label_loop :: "(npfloat list \<Rightarrow> npfloat list list \<Rightarrow> error + frozen_distribution)
    \<Rightarrow> npfloat list list \<Rightarrow> npfloat list list list \<Rightarrow> real list \<Rightarrow> matrix \<Rightarrow> nat
    \<Rightarrow> nat list \<Rightarrow> npfloat list list \<Rightarrow> error + npfloat list list" where
  "score_label_loop multivariate_normal mu sigma pis test_data m [] score = Inr score"
| "score_label_loop multivariate_normal mu sigma pis test_data m (label # labels) score =
     (case row_at mu label of
        Inl e \<Rightarrow> Inl e
      | Inr mean \<Rightarrow>
          (case row_at sigma label of
             Inl e \<Rightarrow> Inl e
           | Inr cov \<Rightarrow>
               (case multivariate_normal mean cov of
                  Inl e \<Rightarrow> Inl e
                | Inr rv \<Rightarrow>
                    (case score_row_loop rv pis test_data label [0..<m] score of
                       Inl e \<Rightarrow> Inl e
                     | Inr score' \<Rightarrow>
                         score_label_loop multivariate_normal mu sigma pis test_data m
                           labels score'))))"

definition score_cell :: "(npfloat list \<Rightarrow> npfloat list list \<Rightarrow> error + frozen_distribution)
    \<Rightarrow> npfloat list list \<Rightarrow> npfloat list list list \<Rightarrow> real list \<Rightarrow> matrix \<Rightarrow> nat list
    \<Rightarrow> error + (npfloat list list \<times> nat list)" where
  "score_cell multivariate_normal mu sigma pis test_data test_labels =
     (let k = 10;
          score = replicate (length test_labels) (replicate k (Val 0))
      in case score_label_loop multivariate_normal mu sigma pis test_data
                (length test_labels) [0..<k] score of
           Inl e \<Rightarrow> Inl e
         | Inr score \<Rightarrow>
             (case comprehension (\<lambda>i. np_argmax (score ! i)) [0..<length score] of
                Inl e \<Rightarrow> Inl e
              | Inr predictions \<Rightarrow> Inr (score, predictions)))"

subsection \<open>The quantities of the specification\<close>

text \<open>
  The feature vectors labelled \<open>j\<close>, their number, their element-wise average and
  their biased (divide by the count) empirical covariance, as the specification words
  them.
\<close>

definition class_rows :: "matrix \<Rightarrow> nat list \<Rightarrow> nat \<Rightarrow> matrix" where
  "class_rows x y j = map snd (filter (\<lambda>lr. fst lr = j) (zip y x))"

definition empirical_mean :: "matrix \<Rightarrow> nat \<Rightarrow> real" where
  "empirical_mean rows a = (\<Sum>i<length rows. rows ! i ! a) / real (length rows)"

definition biased_covariance :: "matrix \<Rightarrow> nat \<Rightarrow> nat \<Rightarrow> real" where
  "biased_covariance rows a b =
     (\<Sum>i<length rows. (rows ! i ! a - empirical_mean rows a)
                        * (rows ! i ! b - empirical_mean rows b)) / real (length rows)"

text \<open>
  The block that \<^verbatim>\<open>sigma[label] = np.cov(x[indices,:], rowvar=0, bias=1)\<close> stores for the
  selected rows, and the biased variance of the entries of one vector.
\<close>

definition stored_covariance :: "nat \<Rightarrow> matrix \<Rightarrow> npfloat list list" where
  "stored_covariance d rows = assign_block d (np_squeeze (np_cov d rows))"

definition entry_variance :: "vec \<Rightarrow> real" where
  "entry_variance r =
     (\<Sum>k<length r. (r ! k - (\<Sum>k<length r. r ! k) / real (length r))^2) / real (length r)"

text \<open>
  A real \<open>d \<times> d\<close> matrix is symmetric positive-definite when it equals its transpose
  and its quadratic form is positive on every non-zero vector; its eigenvalues are at
  least \<open>c\<close> when every eigenvalue of every (non-zero) eigenvector is.
\<close>

definition symmetric_matrix :: "nat \<Rightarrow> matrix \<Rightarrow> bool" where
  "symmetric_matrix d S = (\<forall>a<d. \<forall>b<d. S ! a ! b = S ! b ! a)"

definition quadratic_form :: "nat \<Rightarrow> matrix \<Rightarrow> vec \<Rightarrow> real" where
  "quadratic_form d S v = (\<Sum>a<d. \<Sum>b<d. v ! a * S ! a ! b * v ! b)"

definition positive_definite :: "nat \<Rightarrow> matrix \<Rightarrow> bool" where
  "positive_definite d S =
     (\<forall>v. length v = d \<and> (\<exists>a<d. v ! a \<noteq> 0) \<longrightarrow> 0 < quadratic_form d S v)"

definition eigenvalues_at_least :: "nat \<Rightarrow> real \<Rightarrow> matrix \<Rightarrow> bool" where
  "eigenvalues_at_least d c S =
     (\<forall>lam v. length v = d \<and> (\<exists>a<d. v ! a \<noteq> 0) \<and>
        (\<forall>a<d. (\<Sum>b<d. S ! a ! b * v ! b) = lam * v ! a) \<longrightarrow> c \<le> lam)"

subsection \<open>Example data\<close>

text \<open>
  A training set of twenty 784-dimensional vectors, two of every class: the vectors of
  class \<open>j\<close> are constant \<open>j\<close> and constant \<open>j + 1\<close>.
\<close>

definition two_per_class_data :: matrix where
  "two_per_class_data =
     map (\<lambda>j. replicate 784 (real j)) [0..<10] @ map (\<lambda>j. replicate 784 (real j + 1)) [0..<10]"

definition two_per_class_labels :: "nat list" where
  "two_per_class_labels = [0..<10] @ [0..<10]"

section \<open>Properties of the nearest neighbour search\<close>

lemma sum_list_map_nth:
  fixes f :: "'a \<Rightarrow> real"
  shows "sum_list (map f xs) = (\<Sum>k<length xs. f (xs ! k))"
proof -
  have "sum_list (map f xs) = (\<Sum>k = 0..<length (map f xs). map f xs ! k)"
    by (rule sum_list_sum_nth)
  also have "\<dots> = (\<Sum>k<length xs. f (xs ! k))"
    by (simp add: lessThan_atLeast0)
  finally show ?thesis .
qed

lemma squared_dist_equal_length:
  assumes "length x = length y"
  shows "squared_dist x y = Inr (sum_squared_differences x y)"
proof -
  have "sum_list (map (\<lambda>t. t * t) (map2 (-) x y)) = (\<Sum>k<length x. (x ! k - y ! k)^2)"
    using assms by (simp add: sum_list_map_nth power2_eq_square)
  then show ?thesis
    using assms
    by (simp add: squared_dist_def np_subtract_def np_sum_def np_square_def
        sum_squared_differences_def)
qed

lemma comprehension_cong:
  "(\<And>i. i \<in> set is \<Longrightarrow> f i = g i) \<Longrightarrow> comprehension f is = comprehension g is"
proof (induction "is")
  case Nil
  then show ?case by simp
next
  case (Cons i "is")
  have "f i = g i" by (rule Cons.prems) simp
  moreover have "comprehension f is = comprehension g is"
    by (rule Cons.IH) (simp add: Cons.prems)
  ultimately show ?case by (simp split: sum.splits)
qed

lemma comprehension_all_right:
  "(\<And>i. i \<in> set is \<Longrightarrow> f i = Inr (g i)) \<Longrightarrow> comprehension f is = Inr (map g is)"
proof (induction "is")
  case Nil
  then show ?case by simp
next
  case (Cons i "is")
  have "f i = Inr (g i)" by (rule Cons.prems) simp
  moreover have "comprehension f is = Inr (map g is)"
    by (rule Cons.IH) (simp add: Cons.prems)
  ultimately show ?case by simp
qed

lemma argmin_loop_first_minimum:
  assumes "i = length pre" and "mi < i" and "pre ! mi = mp"
    and "\<forall>j<i. mp \<le> pre ! j" and "\<forall>j<mi. mp < pre ! j"
  shows "argmin_loop as i mp mi < length (pre @ as) \<and>
         (\<forall>j<length (pre @ as). (pre @ as) ! argmin_loop as i mp mi \<le> (pre @ as) ! j) \<and>
         (\<forall>j<argmin_loop as i mp mi. (pre @ as) ! argmin_loop as i mp mi < (pre @ as) ! j)"
  using assms
proof (induction as arbitrary: pre i mp mi)
  case Nil
  then show ?case by simp
next
  case (Cons a as)
  show ?case
  proof (cases "a < mp")
    case True
    have inv: "Suc i = length (pre @ [a])" "i < Suc i" "(pre @ [a]) ! i = a"
      "\<forall>j<Suc i. a \<le> (pre @ [a]) ! j" "\<forall>j<i. a < (pre @ [a]) ! j"
      using Cons.prems True by (auto simp: nth_append less_Suc_eq)
    from Cons.IH [OF inv] True show ?thesis by simp
  next
    case False
    have inv: "Suc i = length (pre @ [a])" "mi < Suc i" "(pre @ [a]) ! mi = mp"
      "\<forall>j<Suc i. mp \<le> (pre @ [a]) ! j" "\<forall>j<mi. mp < (pre @ [a]) ! j"
      using Cons.prems False by (auto simp: nth_append less_Suc_eq)
    from Cons.IH [OF inv] False show ?thesis by simp
  qed
qed

lemma np_argmin_first_minimum:
  assumes "ds \<noteq> []"
  shows "\<exists>r. np_argmin ds = Inr r \<and> r < length ds \<and>
             (\<forall>j<length ds. ds ! r \<le> ds ! j) \<and> (\<forall>j<r. ds ! r < ds ! j)"
proof -
  from assms obtain a as where ds: "ds = a # as" by (cases ds) auto
  have "argmin_loop as 1 a 0 < length ([a] @ as) \<and>
        (\<forall>j<length ([a] @ as). ([a] @ as) ! argmin_loop as 1 a 0 \<le> ([a] @ as) ! j) \<and>
        (\<forall>j<argmin_loop as 1 a 0. ([a] @ as) ! argmin_loop as 1 a 0 < ([a] @ as) ! j)"
    by (rule argmin_loop_first_minimum) simp_all
  then show ?thesis by (simp add: ds np_argmin_def)
qed

lemma distances_well_shaped:
  assumes "length train_labels \<le> length train_data"
    and "\<forall>j<length train_labels. length (train_data ! j) = length x"
  shows "comprehension (distance_to_row train_data x) [0..<length train_labels] =
         Inr (map (\<lambda>i. sum_squared_differences x (train_data ! i)) [0..<length train_labels])"
proof (rule comprehension_all_right)
  fix i assume "i \<in> set [0..<length train_labels]"
  then have l: "i < length train_labels" by simp
  then have i: "i < length train_data" using assms(1) by simp
  have "length x = length (train_data ! i)" using assms(2) l by simp
  then show "distance_to_row train_data x i = Inr (sum_squared_differences x (train_data ! i))"
    using i by (simp add: distance_to_row_def row_at_def squared_dist_equal_length)
qed

lemma find_NN_scans_labelled_rows:
  assumes "train_labels \<noteq> []"
    and "length train_labels \<le> length train_data"
    and "\<forall>j<length train_labels. length (train_data ! j) = length x"
  shows "\<exists>i. find_NN train_data train_labels x = Inr i \<and> i < length train_labels \<and>
           (\<forall>j<length train_labels.
              sum_squared_differences x (train_data ! i)
                \<le> sum_squared_differences x (train_data ! j)) \<and>
           (\<forall>j<i. sum_squared_differences x (train_data ! i)
                < sum_squared_differences x (train_data ! j))"
proof -
  let ?ds = "map (\<lambda>i. sum_squared_differences x (train_data ! i)) [0..<length train_labels]"
  have ds: "comprehension (distance_to_row train_data x) [0..<length train_labels] = Inr ?ds"
    by (rule distances_well_shaped [OF assms(2,3)])
  have "?ds \<noteq> []" using assms(1) by simp
  from np_argmin_first_minimum [OF this] obtain r where
    r: "np_argmin ?ds = Inr r" "r < length ?ds"
      "\<forall>j<length ?ds. ?ds ! r \<le> ?ds ! j" "\<forall>j<r. ?ds ! r < ?ds ! j"
    by blast
  have "find_NN train_data train_labels x = Inr r"
    by (simp add: find_NN_def ds r(1))
  moreover have "r < length train_labels" using r(2) by simp
  moreover have "\<forall>j<length train_labels.
      sum_squared_differences x (train_data ! r) \<le> sum_squared_differences x (train_data ! j)"
    using r(2,3) by simp
  moreover have "\<forall>j<r.
      sum_squared_differences x (train_data ! r) < sum_squared_differences x (train_data ! j)"
    using r(2,4) by simp
  ultimately show ?thesis by blast
qed

lemma find_NN_empty_labels:
  "find_NN train_data [] x = Inl ValueError_empty_sequence"
  by (simp add: find_NN_def np_argmin_def)

lemma comprehension_length:
  "comprehension f is = Inr ds \<Longrightarrow> length ds = length is"
  by (induction "is" arbitrary: ds) (auto split: sum.splits)

lemma np_argmin_in_range:
  assumes "np_argmin ds = Inr r"
  shows "r < length ds"
proof (cases "ds = []")
  case True
  with assms show ?thesis by (simp add: np_argmin_def)
next
  case False
  from np_argmin_first_minimum [OF False] assms show ?thesis by auto
qed

lemma find_NN_in_range:
  assumes "find_NN train_data train_labels x = Inr i"
  shows "i < length train_labels"
proof -
  from assms obtain ds where
    ds: "comprehension (distance_to_row train_data x) [0..<length train_labels] = Inr ds"
    and r: "np_argmin ds = Inr i"
    by (auto simp: find_NN_def split: sum.splits)
  from comprehension_length [OF ds] np_argmin_in_range [OF r] show ?thesis by simp
qed

lemma distance_to_row_take:
  assumes "i < n"
  shows "distance_to_row (take n train_data) x i = distance_to_row train_data x i"
  using assms by (simp add: distance_to_row_def row_at_def)

lemma distance_to_row_append:
  assumes "i < length train_data"
  shows "distance_to_row (train_data @ extra) x i = distance_to_row train_data x i"
  using assms by (simp add: distance_to_row_def row_at_def nth_append)

lemma comprehension_first_error:
  assumes "\<And>k. k \<in> set is1 \<Longrightarrow> f k = Inr (g k)" and "f i = Inl e"
  shows "comprehension f (is1 @ i # is2) = Inl e"
  using assms
proof (induction is1)
  case Nil
  then show ?case by simp
next
  case (Cons k is1)
  have "f k = Inr (g k)" by (rule Cons.prems(1)) simp
  moreover have "comprehension f (is1 @ i # is2) = Inl e"
    by (rule Cons.IH) (simp_all add: Cons.prems)
  ultimately show ?case by simp
qed

lemma find_NN_too_few_rows:
  assumes "length train_data < length train_labels"
    and "\<forall>r\<in>set train_data. length r = length x"
  shows "find_NN train_data train_labels x = Inl IndexError"
proof -
  let ?m = "length train_data"
  have split: "[0..<length train_labels] = [0..<?m] @ ?m # [Suc ?m..<length train_labels]"
    using assms(1) upt_add_eq_append [of 0 "length train_data" "length train_labels - length train_data"]
    by (simp add: upt_conv_Cons)
  have ok: "distance_to_row train_data x k = Inr (sum_squared_differences x (train_data ! k))"
    if "k \<in> set [0..<?m]" for k
  proof -
    from that have k: "k < ?m" by simp
    then have "length x = length (train_data ! k)" using assms(2) by simp
    then show ?thesis
      using k by (simp add: distance_to_row_def row_at_def squared_dist_equal_length)
  qed
  have bad: "distance_to_row train_data x ?m = Inl IndexError"
    by (simp add: distance_to_row_def row_at_def)
  have "comprehension (distance_to_row train_data x) [0..<length train_labels] = Inl IndexError"
    unfolding split
    by (rule comprehension_first_error
        [where g = "\<lambda>k. sum_squared_differences x (train_data ! k)", OF ok bad])
  then show ?thesis by (simp add: find_NN_def)
qed

section \<open>Claims about the nearest neighbour search\<close>

text \<open>
  C6. For a non-empty training set (at least as many rows as labels, every row of the
  query's length) \<open>find_NN\<close> returns an index, and that index is the first one, in
  the order of the rows, whose squared distance to the query is minimal: no row has a
  smaller distance and every row before it has a strictly larger one.
\<close>

theorem find_NN_first_index_of_minimum:
  assumes "train_labels \<noteq> []"
    and "length train_labels \<le> length train_data"
    and "\<forall>r\<in>set train_data. length r = length x"
  shows "\<exists>i. find_NN train_data train_labels x = Inr i \<and> i < length train_labels \<and>
           (\<forall>j<length train_labels.
              sum_squared_differences x (train_data ! i)
                \<le> sum_squared_differences x (train_data ! j)) \<and>
           (\<forall>j<i. sum_squared_differences x (train_data ! i)
                < sum_squared_differences x (train_data ! j))"
proof (rule find_NN_scans_labelled_rows [OF assms(1,2)])
  show "\<forall>j<length train_labels. length (train_data ! j) = length x"
    using assms(2,3) by simp
qed

theorem find_NN_first_index_of_minimum_witness:
  "[7, 1, 2, 3 :: nat] \<noteq> [] \<and>
   length [7, 1, 2, 3 :: nat] \<le> length [[3, 0], [1, 0], [0, 1], [5, 5 :: real]] \<and>
   (\<exists>i. find_NN [[3, 0], [1, 0], [0, 1], [5, 5]] [7, 1, 2, 3] [0, 0] = Inr i \<and> i < 4 \<and>
      (\<forall>j<i. sum_squared_differences [0, 0] ([[3, 0], [1, 0], [0, 1], [5, 5]] ! i)
          < sum_squared_differences [0, 0] ([[3, 0], [1, 0], [0, 1], [5, 5]] ! j))) \<and>
   find_NN [[3, 0], [1, 0], [0, 1], [5, 5]] [7, 1, 2, 3] [0, 0] = Inr 1"
proof -
  have h1: "[7, 1, 2, 3 :: nat] \<noteq> []" by simp
  have h2: "length [7, 1, 2, 3 :: nat] \<le> length [[3, 0], [1, 0], [0, 1], [5, 5 :: real]]"
    by simp
  have h3: "\<forall>r\<in>set [[3, 0], [1, 0], [0, 1], [5, 5 :: real]]. length r = length [0, 0 :: real]"
    by simp
  have ev: "find_NN [[3, 0], [1, 0], [0, 1], [5, 5]] [7, 1, 2, 3] [0, 0] = Inr 1"
    by (simp add: find_NN_def distance_to_row_def row_at_def squared_dist_def np_subtract_def
        np_square_def np_sum_def np_argmin_def upt_conv_Cons)
  from find_NN_first_index_of_minimum [OF h1 h2 h3] h1 h2 ev show ?thesis
    by auto
qed

text \<open>
  C10. The candidates of \<open>find_NN\<close> are exactly the rows \<open>0 .. len(train_labels) - 1\<close>.
  Every one of these rows is a candidate: when they exist and have the query's length,
  the search returns the first of them at minimal squared distance, whatever the rows
  beyond them hold. No other row is one: the result is the one computed on the first
  \<open>len(train_labels)\<close> rows alone, a returned index is below the number of labels, and
  rows of the data matrix beyond the number of labels change nothing. And a data matrix
  with fewer rows than labels makes the search read a row that does not exist
  (IndexError).
\<close>

theorem find_NN_candidates_by_label_count:
  "(train_labels \<noteq> [] \<and> length train_labels \<le> length train_data \<and>
    (\<forall>j<length train_labels. length (train_data ! j) = length x) \<longrightarrow>
      (\<exists>i<length train_labels. find_NN train_data train_labels x = Inr i \<and>
         (\<forall>j<length train_labels.
            sum_squared_differences x (train_data ! i)
              \<le> sum_squared_differences x (train_data ! j)) \<and>
         (\<forall>j<i. sum_squared_differences x (train_data ! i)
              < sum_squared_differences x (train_data ! j)))) \<and>
   find_NN train_data train_labels x
     = find_NN (take (length train_labels) train_data) train_labels x \<and>
   (\<forall>i. find_NN train_data train_labels x = Inr i \<longrightarrow> i < length train_labels) \<and>
   (length train_labels \<le> length train_data \<longrightarrow>
      find_NN (train_data @ extra) train_labels x = find_NN train_data train_labels x) \<and>
   (length train_data < length train_labels \<and> (\<forall>r\<in>set train_data. length r = length x) \<longrightarrow>
      find_NN train_data train_labels x = Inl IndexError)"
proof -
  have "comprehension (distance_to_row (take (length train_labels) train_data) x)
          [0..<length train_labels]
        = comprehension (distance_to_row train_data x) [0..<length train_labels]"
    by (rule comprehension_cong) (simp add: distance_to_row_take)
  then have a: "find_NN train_data train_labels x
     = find_NN (take (length train_labels) train_data) train_labels x"
    by (simp add: find_NN_def)
  have c: "find_NN (train_data @ extra) train_labels x = find_NN train_data train_labels x"
    if "length train_labels \<le> length train_data"
  proof -
    have "comprehension (distance_to_row (train_data @ extra) x) [0..<length train_labels]
          = comprehension (distance_to_row train_data x) [0..<length train_labels]"
      using that by (intro comprehension_cong) (simp add: distance_to_row_append)
    then show ?thesis by (simp add: find_NN_def)
  qed
  have s: "\<exists>i<length train_labels. find_NN train_data train_labels x = Inr i \<and>
         (\<forall>j<length train_labels.
            sum_squared_differences x (train_data ! i)
              \<le> sum_squared_differences x (train_data ! j)) \<and>
         (\<forall>j<i. sum_squared_differences x (train_data ! i)
              < sum_squared_differences x (train_data ! j))"
    if "train_labels \<noteq> [] \<and> length train_labels \<le> length train_data \<and>
        (\<forall>j<length train_labels. length (train_data ! j) = length x)"
    using find_NN_scans_labelled_rows [of train_labels train_data x] that by blast
  have b: "\<forall>i. find_NN train_data train_labels x = Inr i \<longrightarrow> i < length train_labels"
    using find_NN_in_range by blast
  have d: "length train_data < length train_labels \<and>
      (\<forall>r\<in>set train_data. length r = length x) \<longrightarrow>
      find_NN train_data train_labels x = Inl IndexError"
    using find_NN_too_few_rows by blast
  from s have s': "train_labels \<noteq> [] \<and> length train_labels \<le> length train_data \<and>
    (\<forall>j<length train_labels. length (train_data ! j) = length x) \<longrightarrow>
      (\<exists>i<length train_labels. find_NN train_data train_labels x = Inr i \<and>
         (\<forall>j<length train_labels.
            sum_squared_differences x (train_data ! i)
              \<le> sum_squared_differences x (train_data ! j)) \<and>
         (\<forall>j<i. sum_squared_differences x (train_data ! i)
              < sum_squared_differences x (train_data ! j)))"
    by (rule impI)
  from c have c': "length train_labels \<le> length train_data \<longrightarrow>
      find_NN (train_data @ extra) train_labels x = find_NN train_data train_labels x"
    by (rule impI)
  show ?thesis
    by (intro conjI s' a b c' d)
qed

theorem find_NN_candidates_by_label_count_witness:
  "[4, 9 :: nat] \<noteq> [] \<and>
   length [4, 9 :: nat] \<le> length [[1, 0], [3, 0], [0, 0 :: real]] \<and>
   list_all (\<lambda>r. length r = length [0, 0 :: real]) (take 2 [[1, 0], [3, 0], [0, 0 :: real]]) \<and>
   (\<exists>i<length [4, 9 :: nat]. find_NN [[1, 0], [3, 0], [0, 0]] [4, 9] [0, 0] = Inr i \<and>
      (\<forall>j<length [4, 9 :: nat].
         sum_squared_differences [0, 0] ([[1, 0], [3, 0], [0, 0]] ! i)
           \<le> sum_squared_differences [0, 0] ([[1, 0], [3, 0], [0, 0]] ! j)) \<and>
      (\<forall>j<i. sum_squared_differences [0, 0] ([[1, 0], [3, 0], [0, 0]] ! i)
           < sum_squared_differences [0, 0] ([[1, 0], [3, 0], [0, 0]] ! j))) \<and>
   find_NN [[1, 0], [3, 0], [0, 0]] [4, 9] [0, 0] = Inr 0 \<and>
   find_NN (take (length [4, 9 :: nat]) [[1, 0], [3, 0], [0, 0]]) [4, 9] [0, 0] = Inr 0 \<and>
   (0::nat) < length [4, 9 :: nat] \<and>
   find_NN ([[1, 0], [3, 0]] @ [[0, 0]]) [4, 9] [0, 0] = find_NN [[1, 0], [3, 0]] [4, 9] [0, 0] \<and>
   length [[3, 0 :: real]] < length [4, 9 :: nat] \<and>
   list_all (\<lambda>r. length r = length [0, 0 :: real]) [[3, 0 :: real]] \<and>
   find_NN [[3, 0]] [4, 9] [0, 0] = Inl IndexError"
proof -
  let ?td = "[[1, 0], [3, 0], [0, 0]] :: matrix"
  have ev: "find_NN ?td [4, 9] [0, 0] = Inr 0"
    by (simp add: find_NN_def distance_to_row_def row_at_def squared_dist_def np_subtract_def
        np_square_def np_sum_def np_argmin_def upt_conv_Cons)
  note t = find_NN_candidates_by_label_count [of "[4, 9]" ?td "[0, 0]"]
  have h0: "[4, 9 :: nat] \<noteq> []" by simp
  have h1: "length [4, 9 :: nat] \<le> length ?td" by simp
  have h2: "\<forall>j<length [4, 9 :: nat]. length (?td ! j) = length [0, 0 :: real]"
    by (simp add: less_Suc_eq numeral_2_eq_2)
  have h2': "list_all (\<lambda>r. length r = length [0, 0 :: real]) (take 2 ?td)"
    by (simp add: numeral_2_eq_2)
  from t h0 h1 h2 have s: "\<exists>i<length [4, 9 :: nat]. find_NN ?td [4, 9] [0, 0] = Inr i \<and>
      (\<forall>j<length [4, 9 :: nat].
         sum_squared_differences [0, 0] (?td ! i) \<le> sum_squared_differences [0, 0] (?td ! j)) \<and>
      (\<forall>j<i. sum_squared_differences [0, 0] (?td ! i)
           < sum_squared_differences [0, 0] (?td ! j))"
    by blast
  from t have "find_NN ?td [4, 9] [0, 0]
      = find_NN (take (length [4, 9 :: nat]) ?td) [4, 9] [0, 0]"
    by blast
  then have a: "find_NN (take (length [4, 9 :: nat]) ?td) [4, 9] [0, 0] = Inr 0"
    using ev by (rule trans [OF sym])
  from t ev have b: "(0::nat) < length [4, 9 :: nat]" by blast
  from find_NN_candidates_by_label_count [of "[4, 9]" "[[1, 0], [3, 0]]" "[0, 0]" "[[0, 0]]"]
  have c: "find_NN ([[1, 0], [3, 0]] @ [[0, 0]]) [4, 9] [0, 0]
      = find_NN [[1, 0], [3, 0]] [4, 9] [0, 0]"
    by simp
  have k2: "length [[3, 0 :: real]] < length [4, 9 :: nat]" by simp
  have k3: "\<forall>r\<in>set [[3, 0 :: real]]. length r = length [0, 0 :: real]" by simp
  have k3': "list_all (\<lambda>r. length r = length [0, 0 :: real]) [[3, 0 :: real]]" by simp
  from find_NN_candidates_by_label_count [of "[4, 9]" "[[3, 0]]" "[0, 0]"] k2 k3
  have d: "find_NN [[3, 0]] [4, 9] [0, 0] = Inl IndexError"
    by blast
  show ?thesis by (intro conjI h0 h1 h2' s ev a b c k2 k3' d)
qed

text \<open>
  C9. The claim as stated fails: \<open>squared_dist\<close> has no check of its own, and NumPy
  stretches a vector of length one to the length of the other. A vector of length one
  against a vector of length two gives a number, not an error.
\<close>

theorem squared_dist_length_mismatch_counterexample:
  "length [1 :: real] \<noteq> length [0, 0 :: real] \<and> squared_dist [1] [0, 0] = Inr 2"
  by (simp add: squared_dist_def np_subtract_def np_square_def np_sum_def)

text \<open>
  C9, as amended. For two vectors of equal length \<open>squared_dist\<close> returns the sum of
  the squared element-wise differences. For lengths that differ it raises NumPy's
  broadcasting ValueError when neither length is one; when one of the vectors has length
  one, its single element is compared with every element of the other vector and the sum
  of those squared differences is returned.
\<close>

theorem squared_dist_broadcast:
  "(length x = length y \<longrightarrow> squared_dist x y = Inr (sum_squared_differences x y)) \<and>
   (length x \<noteq> length y \<and> length x \<noteq> 1 \<and> length y \<noteq> 1 \<longrightarrow>
      squared_dist x y = Inl ValueError_broadcast) \<and>
   (length x \<noteq> length y \<and> length x = 1 \<longrightarrow>
      squared_dist x y = Inr (\<Sum>k<length y. (x ! 0 - y ! k)^2)) \<and>
   (length x \<noteq> length y \<and> length y = 1 \<longrightarrow>
      squared_dist x y = Inr (\<Sum>k<length x. (x ! k - y ! 0)^2))"
proof (intro conjI impI)
  assume "length x = length y"
  then show "squared_dist x y = Inr (sum_squared_differences x y)"
    by (rule squared_dist_equal_length)
next
  assume "length x \<noteq> length y \<and> length x \<noteq> 1 \<and> length y \<noteq> 1"
  then show "squared_dist x y = Inl ValueError_broadcast"
    by (simp add: squared_dist_def np_subtract_def)
next
  assume a: "length x \<noteq> length y \<and> length x = 1"
  then have "hd x = x ! 0" by (cases x) simp_all
  with a show "squared_dist x y = Inr (\<Sum>k<length y. (x ! 0 - y ! k)^2)"
    by (simp add: squared_dist_def np_subtract_def np_square_def np_sum_def
        sum_list_map_nth power2_eq_square)
next
  assume a: "length x \<noteq> length y \<and> length y = 1"
  then have "hd y = y ! 0" by (cases y) simp_all
  with a show "squared_dist x y = Inr (\<Sum>k<length x. (x ! k - y ! 0)^2)"
    by (simp add: squared_dist_def np_subtract_def np_square_def np_sum_def
        sum_list_map_nth power2_eq_square)
qed

theorem squared_dist_broadcast_witness:
  "length [1, 2 :: real] = length [3, 5 :: real] \<and>
   squared_dist [1, 2] [3, 5] = Inr (sum_squared_differences [1, 2] [3, 5]) \<and>
   squared_dist [1, 2] [3, 5] = Inr 13 \<and>
   length [1, 2, 3 :: real] \<noteq> length [1, 2 :: real] \<and>
   squared_dist [1, 2, 3] [1, 2] = Inl ValueError_broadcast \<and>
   length [1 :: real] \<noteq> length [0, 0 :: real] \<and>
   squared_dist [1] [0, 0] = Inr (\<Sum>k<length [0, 0 :: real]. ([1] ! 0 - [0, 0] ! k)^2) \<and>
   length [0, 0 :: real] \<noteq> length [1 :: real] \<and>
   squared_dist [0, 0] [1] = Inr (\<Sum>k<length [0, 0 :: real]. ([0, 0] ! k - [1] ! 0)^2)"
proof -
  have ev: "squared_dist [1, 2] [3, 5] = Inr 13"
    by (simp add: squared_dist_def np_subtract_def np_square_def np_sum_def)
  have a: "squared_dist [1, 2] [3, 5] = Inr (sum_squared_differences [1, 2] [3, 5])"
    using squared_dist_broadcast [of "[1, 2]" "[3, 5]"] by simp
  have b: "squared_dist [1, 2, 3] [1, 2] = Inl ValueError_broadcast"
    using squared_dist_broadcast [of "[1, 2, 3]" "[1, 2]"] by simp
  have c: "squared_dist [1] [0, 0]
      = Inr (\<Sum>k<length [0, 0 :: real]. ([1] ! 0 - [0, 0] ! k)^2)"
    using squared_dist_broadcast [of "[1]" "[0, 0]"] by simp
  have d: "squared_dist [0, 0] [1]
      = Inr (\<Sum>k<length [0, 0 :: real]. ([0, 0] ! k - [1] ! 0)^2)"
    using squared_dist_broadcast [of "[0, 0]" "[1]"] by simp
  from ev a b c d show ?thesis by simp
qed

text \<open>
  The brute-force search on a training set without labels: the list of distances is
  empty and \<^verbatim>\<open>np.argmin\<close> raises its ValueError.
\<close>

lemma NN_classifier_empty_labels:
  "NN_classifier train_data [] x = Inl ValueError_empty_sequence"
  by (simp add: NN_classifier_def find_NN_empty_labels)

section \<open>Properties of the fitter\<close>

lemma boolean_index_class_rows:
  assumes "length y = length x"
  shows "boolean_index (map (\<lambda>v. v = j) y) x = Inr (class_rows x y j)"
proof -
  have "filter fst (zip (map (\<lambda>v. v = j) y) x)
        = map (\<lambda>lr. (fst lr = j, snd lr)) (filter (\<lambda>lr. fst lr = j) (zip y x))"
    by (induction y x rule: list_induct2') simp_all
  then show ?thesis
    using assms by (cases y) (simp_all add: boolean_index_def class_rows_def o_def)
qed

lemma count_true_mask:
  "length (filter id (map (\<lambda>v. v = j) y)) = count_list y j"
  by (induction y) simp_all

lemma length_filter_eq_count_list:
  "length (filter (\<lambda>v. v = j) y) = count_list y j"
  by (induction y) simp_all

lemma length_class_rows:
  assumes "length y = length x"
  shows "length (class_rows x y j) = count_list y j"
  using assms unfolding class_rows_def
  by (induction y x rule: list_induct2) simp_all

lemma fit_loop_fold:
  assumes "length y = length x" and "y \<noteq> []"
  shows "fit_loop x y d ls (mu, sigma, pis) =
     Inr (fold (\<lambda>l m. m[l := np_mean d (class_rows x y l)]) ls mu,
          fold (\<lambda>l m. m[l := stored_covariance d (class_rows x y l)]) ls sigma,
          fold (\<lambda>l m. m[l := real (count_list y l) / real (length y)]) ls pis)"
proof (induction ls arbitrary: mu sigma pis)
  case Nil
  show ?case by simp
next
  case (Cons l ls)
  have "py_float_div (length (filter id (map (\<lambda>v. v = l) y))) (length y)
        = Inr (real (count_list y l) / real (length y))"
    using assms(2) by (simp only: count_true_mask py_float_div_def) simp
  then show ?case
    by (simp only: fit_loop.simps Let_def boolean_index_class_rows [OF assms(1)] Cons.IH
        stored_covariance_def [symmetric])
       simp
qed

lemma fold_update_upt:
  assumes "n \<le> length m"
  shows "fold (\<lambda>l m. m[l := f l]) [0..<n] m = map f [0..<n] @ drop n m"
  using assms
proof (induction n)
  case 0
  then show ?case by simp
next
  case (Suc n)
  then have n: "n < length m" by simp
  have "fold (\<lambda>l m. m[l := f l]) [0..<Suc n] m = (map f [0..<n] @ drop n m)[n := f n]"
    using Suc by simp
  also have "\<dots> = map f [0..<n] @ (drop n m)[0 := f n]"
    by (simp add: list_update_append)
  also have "(drop n m)[0 := f n] = f n # drop (Suc n) m"
    using n by (simp add: Cons_nth_drop_Suc [symmetric])
  finally show ?case by simp
qed

lemma fold_update_replicate:
  "fold (\<lambda>l m. m[l := f l]) [0..<k] (replicate k z) = map f [0..<k]"
  by (simp add: fold_update_upt)

lemma fit_loop_all_labels:
  assumes "length y = length x" and "y \<noteq> []"
  shows "fit_loop x y d [0..<k]
           (replicate k mu0, replicate k sigma0, replicate k p0) =
     Inr (map (\<lambda>l. np_mean d (class_rows x y l)) [0..<k],
          map (\<lambda>l. stored_covariance d (class_rows x y l)) [0..<k],
          map (\<lambda>l. real (count_list y l) / real (length y)) [0..<k])"
  by (simp add: fit_loop_fold [OF assms] fold_update_replicate)

text \<open>The value of the fitter on every input, error cases included.\<close>

lemma fit_loop_index_error:
  assumes "length y \<noteq> length x" and "y \<noteq> []"
  shows "fit_loop x y d (l # ls) (mu, sigma, pis) = Inl IndexError"
  using assms by (simp add: boolean_index_def)

lemma fit_loop_zero_division:
  assumes "y = []"
  shows "fit_loop x y d (l # ls) (mu, sigma, pis) = Inl ZeroDivisionError"
  using assms by (simp add: boolean_index_def py_float_div_def)

lemma length_np_scale_identity: "length (np_scale c (np_identity n)) = n"
  by (simp add: np_scale_def np_identity_def)

lemma unregularized_fit_value:
  "unregularized_fit x y =
     (if y = [] then Inl ZeroDivisionError
      else if length y \<noteq> length x then Inl IndexError
      else Inr (map (\<lambda>l. np_mean (shape1 x) (class_rows x y l)) [0..<10],
                map (\<lambda>l. stored_covariance (shape1 x) (class_rows x y l)) [0..<10],
                map (\<lambda>l. real (count_list y l) / real (length y)) [0..<10]))"
proof -
  have u: "[0..<10] = 0 # [1..<10]" by (simp add: upt_conv_Cons)
  show ?thesis
  proof (cases "y = []")
    case True
    have "fit_loop x y d [0..<10] (a, b, c) = Inl ZeroDivisionError" for d a b c
      unfolding u by (rule fit_loop_zero_division [OF True])
    then show ?thesis
      using True by (simp add: unregularized_fit_def Let_def)
  next
    case ne: False
    show ?thesis
    proof (cases "length y = length x")
      case False
      have "fit_loop x y d [0..<10] (a, b, c) = Inl IndexError" for d a b c
        unfolding u by (rule fit_loop_index_error [OF False ne])
      then show ?thesis
        using False ne by (simp add: unregularized_fit_def Let_def)
    next
      case True
      show ?thesis
        using True ne
        by (simp add: unregularized_fit_def Let_def fit_loop_all_labels)
    qed
  qed
qed

lemma fit_generative_model_value:
  "fit_generative_model x y =
     (if y = [] then Inl ZeroDivisionError
      else if length y \<noteq> length x then Inl IndexError
      else if shape1 x \<noteq> 784 then Inl ValueError_broadcast
      else Inr (map (\<lambda>l. np_mean 784 (class_rows x y l)) [0..<10],
                map (\<lambda>l. map2 (map2 (\<lambda>s m. fadd s (Val m)))
                             (stored_covariance 784 (class_rows x y l))
                             (np_scale 3100 (np_identity 784))) [0..<10],
                map (\<lambda>l. real (count_list y l) / real (length y)) [0..<10]))"
  by (simp add: fit_generative_model_def Let_def unregularized_fit_value np_iadd_def
      length_np_scale_identity o_def)

lemma np_mean_nth:
  assumes "rows \<noteq> []" and "a < d"
  shows "np_mean d rows ! a = Val (empirical_mean rows a)"
  using assms
  by (simp add: np_mean_def empirical_mean_def column_def sum_list_map_nth)

lemma np_mean_empty: "np_mean d [] = replicate d NaN"
  by (simp add: np_mean_def)

lemma sum_list_map2_times:
  fixes f g :: "'a \<Rightarrow> real"
  shows "sum_list (map2 (*) (map f rows) (map g rows))
         = (\<Sum>i<length rows. f (rows ! i) * g (rows ! i))"
proof -
  have "map2 (*) (map f rows) (map g rows) = map (\<lambda>r. f r * g r) rows"
    by (induction rows) simp_all
  then show ?thesis by (simp add: sum_list_map_nth)
qed

lemma assign_squeeze_square:
  assumes "length c = d" and "\<forall>a<d. length (c ! a) = d"
  shows "assign_block d (np_squeeze c) = c"
proof (cases "\<exists>s. c = [[s]]")
  case True
  then obtain s where c: "c = [[s]]" by blast
  then have "d = 1" using assms(1) by simp
  then show ?thesis by (simp add: c np_squeeze_def)
next
  case False
  then have "np_squeeze c = Matrix c"
    by (auto simp: np_squeeze_def split: list.splits)
  then show ?thesis by simp
qed

lemma np_cov_square:
  assumes "length rows \<noteq> 1"
  shows "length (np_cov d rows) = d \<and> (\<forall>a<d. length (np_cov d rows ! a) = d)"
  using assms by (simp add: np_cov_def Let_def)

lemma stored_covariance_not_one_row:
  assumes "length rows \<noteq> 1"
  shows "stored_covariance d rows = np_cov d rows"
  using np_cov_square [OF assms, of d]
  by (simp add: stored_covariance_def assign_squeeze_square)

lemma stored_covariance_empty: "stored_covariance d [] = replicate d (replicate d NaN)"
proof -
  have "stored_covariance d [] = np_cov d []"
    by (rule stored_covariance_not_one_row) simp
  also have "\<dots> = replicate d (replicate d NaN)"
  proof (rule nth_equalityI)
    show "length (np_cov d []) = length (replicate d (replicate d NaN :: npfloat list))"
      by (simp add: np_cov_def Let_def)
  next
    fix a assume "a < length (np_cov d [])"
    then have a: "a < d" by (simp add: np_cov_def Let_def)
    show "np_cov d [] ! a = replicate d (replicate d NaN) ! a"
    proof (rule nth_equalityI)
      show "length (np_cov d [] ! a) = length (replicate d (replicate d NaN :: npfloat list) ! a)"
        using a by (simp add: np_cov_def Let_def)
    next
      fix b assume "b < length (np_cov d [] ! a)"
      then have "b < d" using a by (simp add: np_cov_def Let_def)
      then show "np_cov d [] ! a ! b = replicate d (replicate d NaN) ! a ! b"
        using a by (simp add: np_cov_def Let_def)
    qed
  qed
  finally show ?thesis .
qed

lemma np_cov_one_row:
  assumes "length r = d" and "0 < d"
  shows "np_cov d [r] = [[Val (entry_variance r)]]"
proof -
  let ?m = "sum_list r / real d"
  have m: "?m = (\<Sum>k<length r. r ! k) / real (length r)"
    using assms(1) sum_list_map_nth [of "\<lambda>t. t" r] by simp
  have "sum_list (map2 (*) (map (\<lambda>t. t - ?m) r) (map (\<lambda>t. t - ?m) r))
        = (\<Sum>k<length r. (r ! k - ?m) * (r ! k - ?m))"
    by (rule sum_list_map2_times)
  then have "sum_list (map2 (*) (map (\<lambda>t. t - ?m) r) (map (\<lambda>t. t - ?m) r)) * (1 / real d)
        = entry_variance r"
    using assms(1) by (simp add: entry_variance_def m power2_eq_square)
  then show ?thesis
    using assms(2) by (simp add: np_cov_def Let_def)
qed

lemma stored_covariance_one_row:
  assumes "length r = d" and "0 < d"
  shows "stored_covariance d [r] = replicate d (replicate d (Val (entry_variance r)))"
  by (simp add: stored_covariance_def np_cov_one_row [OF assms] np_squeeze_def)

lemma length_stored_covariance:
  assumes "\<forall>r\<in>set rows. length r = d" and "0 < d"
  shows "length (stored_covariance d rows) = d"
proof (cases "length rows = 1")
  case True
  then obtain r where r: "rows = [r]" by (cases rows) auto
  then have "length r = d" using assms(1) by simp
  from stored_covariance_one_row [OF this assms(2)] show ?thesis by (simp add: r)
next
  case False
  then show ?thesis
    using np_cov_square [OF False, of d] by (simp add: stored_covariance_not_one_row)
qed

lemma length_stored_covariance_nth:
  assumes "\<forall>r\<in>set rows. length r = d" and "a < d"
  shows "length (stored_covariance d rows ! a) = d"
proof (cases "length rows = 1")
  case True
  then obtain r where r: "rows = [r]" by (cases rows) auto
  then have "length r = d" using assms(1) by simp
  moreover have "0 < d" using assms(2) by simp
  ultimately show ?thesis
    using stored_covariance_one_row [of r d] assms(2) by (simp add: r)
next
  case False
  then show ?thesis
    using np_cov_square [OF False, of d] assms(2) by (simp add: stored_covariance_not_one_row)
qed

lemma stored_covariance_nth:
  assumes "2 \<le> length rows" and "a < d" and "b < d"
  shows "stored_covariance d rows ! a ! b = Val (biased_covariance rows a b)"
proof -
  let ?n = "length rows"
  have n1: "?n \<noteq> 1" and n0: "rows \<noteq> []" using assms(1) by auto
  let ?X = "map (column rows) [0..<d]"
  let ?avg = "map (\<lambda>v. sum_list v / real ?n) ?X"
  let ?Xc = "map2 (\<lambda>v m. map (\<lambda>t. t - m) v) ?X ?avg"
  have avg: "sum_list (column rows e) / real ?n = empirical_mean rows e" for e
    by (simp add: empirical_mean_def column_def sum_list_map_nth)
  have Xc: "?Xc ! e = map (\<lambda>r. r ! e - empirical_mean rows e) rows" if "e < d" for e
    using that by (simp add: avg) (simp add: column_def)
  have len: "length ?Xc = d" by simp
  have "np_cov d rows ! a ! b = Val (sum_list (map2 (*) (?Xc ! a) (?Xc ! b)) * (1 / real ?n))"
    using assms(2,3) len n1 n0 unfolding np_cov_def Let_def by simp
  also have "sum_list (map2 (*) (?Xc ! a) (?Xc ! b))
      = (\<Sum>i<?n. (rows ! i ! a - empirical_mean rows a) * (rows ! i ! b - empirical_mean rows b))"
    unfolding Xc [OF assms(2)] Xc [OF assms(3)] by (rule sum_list_map2_times)
  finally show ?thesis
    by (simp add: biased_covariance_def stored_covariance_not_one_row [OF n1])
qed

lemma entry_variance_nonneg: "0 \<le> entry_variance r"
  unfolding entry_variance_def by (intro divide_nonneg_nonneg sum_nonneg) simp_all

lemma entry_variance_pos:
  assumes "a < length r" and "b < length r" and "r ! a \<noteq> r ! b"
  shows "0 < entry_variance r"
proof -
  let ?m = "(\<Sum>k<length r. r ! k) / real (length r)"
  obtain e where e: "e < length r" "r ! e \<noteq> ?m"
    using assms by (cases "r ! a = ?m") auto
  have "0 < (r ! e - ?m)^2" using e(2) by simp
  also have "\<dots> \<le> (\<Sum>k<length r. (r ! k - ?m)^2)"
    using e(1) by (intro member_le_sum) simp_all
  finally have "0 < (\<Sum>k<length r. (r ! k - ?m)^2)" .
  moreover have "0 < real (length r)" using assms(1) by (cases r) simp_all
  ultimately show ?thesis unfolding entry_variance_def by (rule divide_pos_pos)
qed

lemma regularized_nth:
  assumes "a < n" and "b < n" and "length S = n" and "length (S ! a) = n"
  shows "map2 (map2 (\<lambda>s m. fadd s (Val m))) S (np_scale c (np_identity n)) ! a ! b
         = fadd (S ! a ! b) (Val (if a = b then c else 0))"
  using assms by (simp add: np_scale_def np_identity_def)

lemma biased_covariance_sym: "biased_covariance rows a b = biased_covariance rows b a"
  by (simp add: biased_covariance_def mult.commute)

lemma covariance_quadratic_form:
  fixes z :: "nat \<Rightarrow> nat \<Rightarrow> real"
  shows "(\<Sum>a<d. \<Sum>b<d. v a * ((\<Sum>i<n. z i a * z i b) / real n) * v b)
         = (\<Sum>i<n. (\<Sum>a<d. v a * z i a)^2) / real n"
proof -
  have "(\<Sum>a<d. \<Sum>b<d. v a * ((\<Sum>i<n. z i a * z i b) / real n) * v b)
        = (\<Sum>a<d. \<Sum>b<d. (\<Sum>i<n. (v a * z i a) * (v b * z i b)) / real n)"
    by (simp add: sum_distrib_left sum_distrib_right sum_divide_distrib ac_simps)
  also have "\<dots> = (\<Sum>a<d. \<Sum>b<d. \<Sum>i<n. (v a * z i a) * (v b * z i b)) / real n"
    by (simp add: sum_divide_distrib)
  also have "(\<Sum>a<d. \<Sum>b<d. \<Sum>i<n. (v a * z i a) * (v b * z i b))
        = (\<Sum>a<d. \<Sum>i<n. \<Sum>b<d. (v a * z i a) * (v b * z i b))"
    by (rule sum.cong [OF refl]) (rule sum.swap)
  also have "\<dots> = (\<Sum>i<n. \<Sum>a<d. \<Sum>b<d. (v a * z i a) * (v b * z i b))"
    by (rule sum.swap)
  also have "\<dots> = (\<Sum>i<n. (\<Sum>a<d. v a * z i a)^2)"
    by (simp add: power2_eq_square sum_product)
  finally show ?thesis .
qed

lemma covariance_quadratic_form_nonneg:
  "0 \<le> (\<Sum>a<d. \<Sum>b<d. v ! a * biased_covariance rows a b * v ! b)"
proof -
  have "(\<Sum>a<d. \<Sum>b<d. v ! a * biased_covariance rows a b * v ! b)
        = (\<Sum>i<length rows. (\<Sum>a<d. v ! a * (rows ! i ! a - empirical_mean rows a))^2)
            / real (length rows)"
    unfolding biased_covariance_def
    by (rule covariance_quadratic_form
        [where d = d and v = "\<lambda>a. v ! a" and n = "length rows"
           and z = "\<lambda>i a. rows ! i ! a - empirical_mean rows a"])
  also have "0 \<le> \<dots>"
    by (intro divide_nonneg_nonneg sum_nonneg) simp_all
  finally show ?thesis .
qed

lemma sum_squares_pos:
  fixes v :: "real list"
  assumes "\<exists>a<d. v ! a \<noteq> 0"
  shows "0 < (\<Sum>a<d. v ! a * v ! a)"
proof -
  from assms obtain a where a: "a < d" "v ! a \<noteq> 0" by blast
  have "0 < v ! a * v ! a" using a(2) by (auto simp: zero_less_mult_iff)
  also have "\<dots> \<le> (\<Sum>a<d. v ! a * v ! a)"
    using a(1) by (intro member_le_sum) simp_all
  finally show ?thesis .
qed

lemma constant_quadratic_form_nonneg:
  fixes s :: real
  assumes "0 \<le> s"
  shows "0 \<le> (\<Sum>a<d. \<Sum>b<d. v ! a * s * v ! b)"
proof -
  have "(\<Sum>a<d. \<Sum>b<d. v ! a * s * v ! b) = s * ((\<Sum>a<d. v ! a) * (\<Sum>b<d. v ! b))"
    by (simp add: sum_product sum_distrib_left ac_simps)
  also have "0 \<le> \<dots>"
    by (intro mult_nonneg_nonneg assms zero_le_square)
  finally show ?thesis .
qed

lemma regularized_quadratic_form:
  assumes "\<forall>a<d. \<forall>b<d. S ! a ! b = R a b + (if a = b then c else 0)"
  shows "quadratic_form d S v
         = (\<Sum>a<d. \<Sum>b<d. v ! a * R a b * v ! b) + c * (\<Sum>a<d. v ! a * v ! a)"
proof -
  have "quadratic_form d S v
      = (\<Sum>a<d. \<Sum>b<d. v ! a * R a b * v ! b + (if a = b then c * (v ! a * v ! a) else 0))"
    unfolding quadratic_form_def using assms
    by (intro sum.cong refl) (simp add: algebra_simps)
  also have "\<dots> = (\<Sum>a<d. (\<Sum>b<d. v ! a * R a b * v ! b) + c * (v ! a * v ! a))"
    by (intro sum.cong refl) (simp add: sum.distrib)
  finally show ?thesis by (simp add: sum.distrib sum_distrib_left)
qed

lemma regularized_spd:
  assumes S: "\<forall>a<d. \<forall>b<d. S ! a ! b = R a b + (if a = b then c else 0)"
    and sym: "\<forall>a b. R a b = R b a"
    and psd: "\<forall>v. 0 \<le> (\<Sum>a<d. \<Sum>b<d. v ! a * R a b * v ! b)"
    and c: "0 < c"
  shows "symmetric_matrix d S \<and> positive_definite d S \<and> eigenvalues_at_least d c S"
proof (intro conjI)
  show "symmetric_matrix d S"
    unfolding symmetric_matrix_def using S sym by auto
next
  show "positive_definite d S"
    unfolding positive_definite_def
  proof (intro allI impI)
    fix v :: "real list"
    assume v: "length v = d \<and> (\<exists>a<d. v ! a \<noteq> 0)"
    then have "0 < c * (\<Sum>a<d. v ! a * v ! a)"
      using c sum_squares_pos [where d = d and v = v] by simp
    moreover have "0 \<le> (\<Sum>a<d. \<Sum>b<d. v ! a * R a b * v ! b)"
      using psd by blast
    ultimately show "0 < quadratic_form d S v"
      by (simp add: regularized_quadratic_form [OF S])
  qed
next
  show "eigenvalues_at_least d c S"
    unfolding eigenvalues_at_least_def
  proof (intro allI impI)
    fix lam :: real and v :: "real list"
    assume h: "length v = d \<and> (\<exists>a<d. v ! a \<noteq> 0) \<and>
        (\<forall>a<d. (\<Sum>b<d. S ! a ! b * v ! b) = lam * v ! a)"
    let ?n = "\<Sum>a<d. v ! a * v ! a"
    have pos: "0 < ?n" using h sum_squares_pos [where d = d and v = v] by simp
    have nonneg: "0 \<le> (\<Sum>a<d. \<Sum>b<d. v ! a * R a b * v ! b)"
      using psd by blast
    have "quadratic_form d S v = (\<Sum>a<d. v ! a * (\<Sum>b<d. S ! a ! b * v ! b))"
      unfolding quadratic_form_def by (simp add: sum_distrib_left mult.assoc)
    also have "\<dots> = (\<Sum>a<d. v ! a * (lam * v ! a))"
      using h by (intro sum.cong refl) simp
    also have "\<dots> = lam * ?n"
      by (simp add: sum_distrib_left mult.left_commute)
    finally have "lam * ?n = (\<Sum>a<d. \<Sum>b<d. v ! a * R a b * v ! b) + c * ?n"
      by (simp add: regularized_quadratic_form [OF S])
    then have "c * ?n \<le> lam * ?n"
      using nonneg by simp
    then show "c \<le> lam" using pos by simp
  qed
qed

lemma shape1_rows:
  assumes "\<forall>r\<in>set x. length r = d" and "x \<noteq> []"
  shows "shape1 x = d"
  using assms by (cases x) (simp_all add: shape1_def)

lemma class_rows_nonempty:
  assumes "length y = length x" and "j \<in> set y"
  shows "class_rows x y j \<noteq> []"
proof -
  have "count_list y j \<noteq> 0" using assms(2) by (simp add: count_list_0_iff)
  then show ?thesis using length_class_rows [OF assms(1), of j] by auto
qed

lemma class_rows_empty:
  assumes "length y = length x" and "j \<notin> set y"
  shows "class_rows x y j = []"
proof -
  have "count_list y j = 0" using assms(2) by (simp add: count_list_0_iff)
  then show ?thesis using length_class_rows [OF assms(1), of j] by simp
qed

lemma regularized_matrix_real:
  assumes "length B = n" and "\<forall>a<n. length (B ! a) = n"
    and "\<forall>a<n. \<forall>b<n. B ! a ! b = Val (R a b)"
  shows "map2 (map2 (\<lambda>s m. fadd s (Val m))) B (np_scale c (np_identity n))
         = map (map Val)
             (map (\<lambda>a. map (\<lambda>b. R a b + (if a = b then c else 0)) [0..<n]) [0..<n])"
    (is "?L = ?R")
proof (rule nth_equalityI)
  show "length ?L = length ?R"
    by (simp add: assms(1) length_np_scale_identity)
next
  fix a assume "a < length ?L"
  then have a: "a < n" by (simp add: assms(1) length_np_scale_identity)
  have la: "length (B ! a) = n" using assms(2) a by simp
  show "?L ! a = ?R ! a"
  proof (rule nth_equalityI)
    show "length (?L ! a) = length (?R ! a)"
      using a by (simp add: assms(1) la np_scale_def np_identity_def)
  next
    fix b assume "b < length (?L ! a)"
    then have b: "b < n"
      using a by (simp add: assms(1) la np_scale_def np_identity_def)
    have "?L ! a ! b = fadd (B ! a ! b) (Val (if a = b then c else 0))"
      by (rule regularized_nth [OF a b assms(1) la])
    then show "?L ! a ! b = ?R ! a ! b"
      using a b assms(3) by simp
  qed
qed

lemma regularized_class_covariance:
  assumes "rows \<noteq> []" and "\<forall>r\<in>set rows. length r = n" and "0 < n" and "0 < c"
  shows "\<exists>S. map2 (map2 (\<lambda>s m. fadd s (Val m))) (stored_covariance n rows)
                (np_scale c (np_identity n))
              = map (map Val) S \<and>
             symmetric_matrix n S \<and> positive_definite n S \<and> eigenvalues_at_least n c S"
proof -
  have len: "length (stored_covariance n rows) = n"
    by (rule length_stored_covariance [OF assms(2,3)])
  have lens: "\<forall>a<n. length (stored_covariance n rows ! a) = n"
    using length_stored_covariance_nth [OF assms(2)] by blast
  have "\<exists>R. (\<forall>a<n. \<forall>b<n. stored_covariance n rows ! a ! b = Val (R a b)) \<and>
            (\<forall>a b. R a b = R b a) \<and>
            (\<forall>v. 0 \<le> (\<Sum>a<n. \<Sum>b<n. v ! a * R a b * v ! b))"
  proof (cases "length rows = 1")
    case True
    then obtain r where r: "rows = [r]" by (cases rows) auto
    then have lr: "length r = n" using assms(2) by simp
    let ?R = "\<lambda>a b :: nat. entry_variance r"
    have e: "\<forall>a<n. \<forall>b<n. stored_covariance n rows ! a ! b = Val (?R a b)"
      by (simp add: r stored_covariance_one_row [OF lr assms(3)])
    have s: "\<forall>a b. ?R a b = ?R b a" by simp
    have p: "\<forall>v. 0 \<le> (\<Sum>a<n. \<Sum>b<n. v ! a * ?R a b * v ! b)"
      by (intro allI constant_quadratic_form_nonneg entry_variance_nonneg)
    show ?thesis by (rule exI [of _ ?R]) (intro conjI e s p)
  next
    case False
    moreover have "length rows \<noteq> 0" using assms(1) by simp
    ultimately have two: "2 \<le> length rows" by linarith
    have e: "\<forall>a<n. \<forall>b<n.
        stored_covariance n rows ! a ! b = Val (biased_covariance rows a b)"
      by (intro allI impI stored_covariance_nth [OF two])
    have s: "\<forall>a b. biased_covariance rows a b = biased_covariance rows b a"
      by (intro allI biased_covariance_sym)
    have p: "\<forall>v. 0 \<le> (\<Sum>a<n. \<Sum>b<n. v ! a * biased_covariance rows a b * v ! b)"
      by (intro allI covariance_quadratic_form_nonneg)
    show ?thesis by (rule exI [of _ "biased_covariance rows"]) (intro conjI e s p)
  qed
  then obtain R where R: "\<forall>a<n. \<forall>b<n. stored_covariance n rows ! a ! b = Val (R a b)"
    "\<forall>a b. R a b = R b a" "\<forall>v. 0 \<le> (\<Sum>a<n. \<Sum>b<n. v ! a * R a b * v ! b)"
    by blast
  let ?S = "map (\<lambda>a. map (\<lambda>b. R a b + (if a = b then c else 0)) [0..<n]) [0..<n]"
  have "\<forall>a<n. \<forall>b<n. ?S ! a ! b = R a b + (if a = b then c else 0)"
    by simp
  from regularized_spd [OF this R(2,3) assms(4)]
  have spd: "symmetric_matrix n ?S \<and> positive_definite n ?S \<and> eigenvalues_at_least n c ?S" .
  have eq: "map2 (map2 (\<lambda>s m. fadd s (Val m))) (stored_covariance n rows)
                (np_scale c (np_identity n)) = map (map Val) ?S"
    by (rule regularized_matrix_real [OF len lens R(1)])
  show ?thesis by (rule exI [of _ ?S]) (intro conjI eq spd [THEN conjunct1]
      spd [THEN conjunct2, THEN conjunct1] spd [THEN conjunct2, THEN conjunct2])
qed

lemma regularized_matrix_nan:
  "map2 (map2 (\<lambda>s m. fadd s (Val m))) (replicate n (replicate n NaN))
      (np_scale c (np_identity n))
   = replicate n (replicate n NaN)"
  (is "?L = ?R")
proof (rule nth_equalityI)
  show "length ?L = length ?R" by (simp add: length_np_scale_identity)
next
  fix a assume "a < length ?L"
  then have a: "a < n" by (simp add: length_np_scale_identity)
  show "?L ! a = ?R ! a"
  proof (rule nth_equalityI)
    show "length (?L ! a) = length (?R ! a)"
      using a by (simp add: np_scale_def np_identity_def)
  next
    fix b assume "b < length (?L ! a)"
    then have b: "b < n" using a by (simp add: np_scale_def np_identity_def)
    have "?L ! a ! b = fadd (replicate n (replicate n NaN) ! a ! b) (Val (if a = b then c else 0))"
      by (rule regularized_nth [OF a b]) (use a in simp_all)
    then show "?L ! a ! b = ?R ! a ! b" using a b by simp
  qed
qed

lemma class_rows_subset: "set (class_rows x y j) \<subseteq> set x"
  unfolding class_rows_def by (auto dest: set_zip_rightD)

lemma class_rows_append:
  assumes "length y1 = length x1"
  shows "class_rows (x1 @ x2) (y1 @ y2) j = class_rows x1 y1 j @ class_rows x2 y2 j"
  using assms by (simp add: class_rows_def)

lemma class_rows_upt:
  assumes "j < n"
  shows "class_rows (map f [0..<n]) [0..<n] j = [f j]"
  using assms
proof (induction n)
  case 0
  then show ?case by simp
next
  case (Suc n)
  have split: "class_rows (map f [0..<Suc n]) [0..<Suc n] j
      = class_rows (map f [0..<n]) [0..<n] j @ class_rows [f n] [n] j"
    using class_rows_append [of "[0..<n]" "map f [0..<n]" "[f n]" "[n]" j] by simp
  show ?case
  proof (cases "j = n")
    case True
    have "class_rows (map f [0..<n]) [0..<n] n = []"
      by (rule class_rows_empty) simp_all
    then show ?thesis by (simp add: split True) (simp add: class_rows_def)
  next
    case False
    then have "j < n" using Suc.prems by simp
    from Suc.IH [OF this] False show ?thesis
      by (simp add: split) (simp add: class_rows_def)
  qed
qed

lemma count_list_upt: "count_list [0..<n] j = (if j < n then 1 else 0)"
  by (induction n) auto

section \<open>Claims about the fitter\<close>

text \<open>
  C3. The claim as stated fails in two places. The fitter adds \<^verbatim>\<open>3100*np.identity(784)\<close>,
  so on a training set of two-dimensional vectors with two examples of every class it
  raises instead of returning. And the covariance of a class with exactly one example
  is not the biased empirical covariance of that one vector (the zero matrix): on ten
  vectors \<open>(1, 0, ..., 0)\<close>, one of each class, the entry stored for class 0 is the
  variance of the vector's own 784 entries, which is positive.
\<close>

theorem fit_generative_model_estimates_counterexample:
  "list_all (\<lambda>j. j \<in> set two_per_class_labels) [0..<10] \<and>
   length two_per_class_labels = length (map (\<lambda>j. [real j, 0]) two_per_class_labels) \<and>
   fit_generative_model (map (\<lambda>j. [real j, 0]) two_per_class_labels) two_per_class_labels
     = Inl ValueError_broadcast \<and>
   list_all (\<lambda>j. j \<in> set [0..<10]) [0..<10] \<and>
   list_all (\<lambda>r. length r = 784) (map (\<lambda>j. (1::real) # replicate 783 0) [0..<10]) \<and>
   (\<exists>mu raw pis.
      unregularized_fit (map (\<lambda>j. 1 # replicate 783 0) [0..<10]) [0..<10] = Inr (mu, raw, pis) \<and>
      raw ! 0 ! 0 ! 0
        \<noteq> Val (biased_covariance
                 (class_rows (map (\<lambda>j. 1 # replicate 783 0) [0..<10]) [0..<10] 0) 0 0))"
proof -
  let ?x2 = "map (\<lambda>j. [real j, 0]) two_per_class_labels"
  let ?r = "1 # replicate 783 (0::real)"
  let ?x = "map (\<lambda>j. ?r) [0..<10]"
  let ?y = "[0..<10]"
  have a1: "list_all (\<lambda>j. j \<in> set two_per_class_labels) [0..<10]"
    by (simp add: list_all_iff two_per_class_labels_def)
  have a2: "length two_per_class_labels = length ?x2" by simp
  have "shape1 ?x2 = 2"
    by (simp add: shape1_def two_per_class_labels_def upt_conv_Cons)
  moreover have "two_per_class_labels \<noteq> []"
    by (simp add: two_per_class_labels_def)
  ultimately have a3: "fit_generative_model ?x2 two_per_class_labels = Inl ValueError_broadcast"
    by (simp add: fit_generative_model_value)
  have b1: "list_all (\<lambda>j. j \<in> set ?y) [0..<10]" by (simp add: list_all_iff)
  have "\<forall>r\<in>set ?x. length r = 784" by auto
  then have b2: "list_all (\<lambda>r. length r = 784) ?x" by (simp only: list_all_iff)
  have sh: "shape1 ?x = 784" by (simp add: shape1_def upt_conv_Cons)
  have rows: "class_rows ?x ?y 0 = [?r]"
    by (rule class_rows_upt) simp
  let ?mu = "map (\<lambda>l. np_mean 784 (class_rows ?x ?y l)) [0..<10]"
  let ?raw = "map (\<lambda>l. stored_covariance 784 (class_rows ?x ?y l)) [0..<10]"
  let ?pis = "map (\<lambda>l. real (count_list ?y l) / real (length ?y)) [0..<10]"
  have u: "unregularized_fit ?x ?y = Inr (?mu, ?raw, ?pis)"
    by (simp add: unregularized_fit_value sh)
  have blk: "stored_covariance 784 [?r] = replicate 784 (replicate 784 (Val (entry_variance ?r)))"
    by (rule stored_covariance_one_row) simp_all
  have raw: "?raw ! 0 ! 0 ! 0 = Val (entry_variance ?r)"
    by (simp add: rows blk)
  have pos: "0 < entry_variance ?r"
    by (rule entry_variance_pos [of 0 _ 1]) simp_all
  have zero: "biased_covariance [?r] 0 0 = 0"
    by (simp add: biased_covariance_def empirical_mean_def)
  have ne: "?raw ! 0 ! 0 ! 0 \<noteq> Val (biased_covariance (class_rows ?x ?y 0) 0 0)"
    using pos by (simp only: raw rows zero) simp
  have b3: "\<exists>mu raw pis. unregularized_fit ?x ?y = Inr (mu, raw, pis) \<and>
      raw ! 0 ! 0 ! 0 \<noteq> Val (biased_covariance (class_rows ?x ?y 0) 0 0)"
    using u ne by blast
  show ?thesis by (intro conjI a1 a2 a3 b1 b2 b3)
qed

text \<open>
  C3, as amended. For a training set of 784-dimensional vectors with one label per
  vector in which every class \<open>0 .. 9\<close> has at least one example, the fitter returns,
  and for every class \<open>j\<close>: the prior is the number of examples labelled \<open>j\<close> divided
  by the number of examples, the mean is the element-wise average of the vectors
  labelled \<open>j\<close>, and, when the class has at least two examples, the covariance the loop
  computes (the raw covariance, before \<^verbatim>\<open>3100*I\<close> is added) is the biased empirical
  covariance of those vectors.
\<close>

theorem fit_generative_model_estimates:
  assumes "\<forall>r\<in>set x. length r = 784"
    and "length y = length x"
    and "\<forall>j<10. j \<in> set y"
  shows "\<exists>mu raw sigma pis.
     unregularized_fit x y = Inr (mu, raw, pis) \<and>
     fit_generative_model x y = Inr (mu, sigma, pis) \<and>
     (\<forall>j<10.
        pis ! j = real (count_list y j) / real (length y) \<and>
        (\<forall>a<784. mu ! j ! a = Val (empirical_mean (class_rows x y j) a)) \<and>
        (2 \<le> count_list y j \<longrightarrow>
           (\<forall>a<784. \<forall>b<784.
              raw ! j ! a ! b = Val (biased_covariance (class_rows x y j) a b))))"
proof -
  have "(0::nat) \<in> set y" using assms(3) by simp
  then have y: "y \<noteq> []" by auto
  then have x: "x \<noteq> []" using assms(2) by auto
  have d: "shape1 x = 784" by (rule shape1_rows [OF assms(1) x])
  let ?mu = "map (\<lambda>l. np_mean 784 (class_rows x y l)) [0..<10]"
  let ?raw = "map (\<lambda>l. stored_covariance 784 (class_rows x y l)) [0..<10]"
  let ?sigma = "map (\<lambda>l. map2 (map2 (\<lambda>s m. fadd s (Val m)))
                             (stored_covariance 784 (class_rows x y l))
                             (np_scale 3100 (np_identity 784))) [0..<10]"
  let ?pis = "map (\<lambda>l. real (count_list y l) / real (length y)) [0..<10]"
  have u: "unregularized_fit x y = Inr (?mu, ?raw, ?pis)"
    using assms(2) y d by (simp add: unregularized_fit_value)
  have f: "fit_generative_model x y = Inr (?mu, ?sigma, ?pis)"
    using assms(2) y d by (simp add: fit_generative_model_value)
  have e: "?pis ! j = real (count_list y j) / real (length y) \<and>
        (\<forall>a<784. ?mu ! j ! a = Val (empirical_mean (class_rows x y j) a)) \<and>
        (2 \<le> count_list y j \<longrightarrow>
           (\<forall>a<784. \<forall>b<784.
              ?raw ! j ! a ! b = Val (biased_covariance (class_rows x y j) a b)))"
    if j: "j < 10" for j
  proof (intro conjI impI)
    show "?pis ! j = real (count_list y j) / real (length y)" using j by simp
  next
    have ne: "class_rows x y j \<noteq> []"
      using assms(2,3) j by (intro class_rows_nonempty) simp_all
    show "\<forall>a<784. ?mu ! j ! a = Val (empirical_mean (class_rows x y j) a)"
      using j by (simp add: np_mean_nth [OF ne])
  next
    assume "2 \<le> count_list y j"
    then have two: "2 \<le> length (class_rows x y j)"
      by (simp add: length_class_rows [OF assms(2)])
    show "\<forall>a<784. \<forall>b<784. ?raw ! j ! a ! b = Val (biased_covariance (class_rows x y j) a b)"
      using j by (simp add: stored_covariance_nth [OF two])
  qed
  show ?thesis
    by (rule exI [of _ ?mu], rule exI [of _ ?raw], rule exI [of _ ?sigma], rule exI [of _ ?pis])
       (intro conjI u f allI impI e)
qed

theorem fit_generative_model_estimates_witness:
  "list_all (\<lambda>r. length r = 784) two_per_class_data \<and>
   length two_per_class_labels = length two_per_class_data \<and>
   list_all (\<lambda>j. j \<in> set two_per_class_labels) [0..<10] \<and>
   2 \<le> count_list two_per_class_labels 3 \<and>
   (\<exists>mu raw sigma pis.
     unregularized_fit two_per_class_data two_per_class_labels = Inr (mu, raw, pis) \<and>
     fit_generative_model two_per_class_data two_per_class_labels = Inr (mu, sigma, pis) \<and>
     pis ! 3 = real (count_list two_per_class_labels 3) / real (length two_per_class_labels) \<and>
     (\<forall>a<784. mu ! 3 ! a
        = Val (empirical_mean (class_rows two_per_class_data two_per_class_labels 3) a)) \<and>
     (\<forall>a<784. \<forall>b<784. raw ! 3 ! a ! b
        = Val (biased_covariance
                 (class_rows two_per_class_data two_per_class_labels 3) a b)))"
proof -
  have h1: "\<forall>r\<in>set two_per_class_data. length r = 784"
    by (auto simp: two_per_class_data_def)
  have h2: "length two_per_class_labels = length two_per_class_data"
    by (simp add: two_per_class_data_def two_per_class_labels_def)
  have h3: "\<forall>j<10. j \<in> set two_per_class_labels"
    by (simp add: two_per_class_labels_def)
  have a1: "list_all (\<lambda>r. length r = 784) two_per_class_data"
    using h1 by (simp only: list_all_iff)
  have a3: "list_all (\<lambda>j. j \<in> set two_per_class_labels) [0..<10]"
    using h3 by (simp add: list_all_iff)
  have c3: "2 \<le> count_list two_per_class_labels 3"
    by (simp add: two_per_class_labels_def count_list_upt)
  from fit_generative_model_estimates [OF h1 h2 h3] obtain mu raw sigma pis where
    u: "unregularized_fit two_per_class_data two_per_class_labels = Inr (mu, raw, pis)"
    and f: "fit_generative_model two_per_class_data two_per_class_labels = Inr (mu, sigma, pis)"
    and e: "\<forall>j<10.
        pis ! j = real (count_list two_per_class_labels j) / real (length two_per_class_labels) \<and>
        (\<forall>a<784. mu ! j ! a
           = Val (empirical_mean (class_rows two_per_class_data two_per_class_labels j) a)) \<and>
        (2 \<le> count_list two_per_class_labels j \<longrightarrow>
           (\<forall>a<784. \<forall>b<784. raw ! j ! a ! b
              = Val (biased_covariance
                       (class_rows two_per_class_data two_per_class_labels j) a b)))"
    by blast
  have "(3::nat) < 10" by simp
  with e c3 have e3:
    "pis ! 3 = real (count_list two_per_class_labels 3) / real (length two_per_class_labels)"
    "\<forall>a<784. mu ! 3 ! a
       = Val (empirical_mean (class_rows two_per_class_data two_per_class_labels 3) a)"
    "\<forall>a<784. \<forall>b<784. raw ! 3 ! a ! b
       = Val (biased_covariance (class_rows two_per_class_data two_per_class_labels 3) a b)"
    by blast+
  show ?thesis
    by (intro conjI a1 h2 a3 c3, rule exI [of _ mu], rule exI [of _ raw],
        rule exI [of _ sigma], rule exI [of _ pis]) (intro conjI u f e3)
qed

text \<open>
  C4. The claim as stated fails: \<open>fit_generative_model\<close> takes the data and the
  labels only. Were the returned covariance \<open>raw + c * Identity\<close> for whatever
  non-negative \<open>c\<close> a caller has in mind, it would be so for \<open>c = 1\<close>; on one
  example of 784 zeros the diagonal entry returned is the raw entry plus 3100.
\<close>

theorem fit_parameter_c_counterexample:
  "\<not> (\<forall>c x y mu raw sigma pis.
        0 \<le> c \<and> unregularized_fit x y = Inr (mu, raw, pis) \<and>
        fit_generative_model x y = Inr (mu, sigma, pis) \<longrightarrow>
        (\<forall>j<10. \<forall>a<784. \<forall>b<784.
           sigma ! j ! a ! b = fadd (raw ! j ! a ! b) (Val (if a = b then c else 0))))"
proof
  assume claim: "\<forall>c x y mu raw sigma pis.
        0 \<le> c \<and> unregularized_fit x y = Inr (mu, raw, pis) \<and>
        fit_generative_model x y = Inr (mu, sigma, pis) \<longrightarrow>
        (\<forall>j<10. \<forall>a<784. \<forall>b<784.
           sigma ! j ! a ! b = fadd (raw ! j ! a ! b) (Val (if a = b then c else 0)))"
  let ?x = "[replicate 784 0] :: matrix"
  let ?y = "[0] :: nat list"
  let ?mu = "map (\<lambda>l. np_mean 784 (class_rows ?x ?y l)) [0..<10]"
  let ?raw = "map (\<lambda>l. stored_covariance 784 (class_rows ?x ?y l)) [0..<10]"
  let ?sigma = "map (\<lambda>l. map2 (map2 (\<lambda>s m. fadd s (Val m))) (stored_covariance 784 (class_rows ?x ?y l))
                             (np_scale 3100 (np_identity 784))) [0..<10]"
  let ?pis = "map (\<lambda>l. real (count_list ?y l) / real (length ?y)) [0..<10]"
  have u: "unregularized_fit ?x ?y = Inr (?mu, ?raw, ?pis)"
    by (simp add: unregularized_fit_value shape1_def)
  have f: "fit_generative_model ?x ?y = Inr (?mu, ?sigma, ?pis)"
    by (simp add: fit_generative_model_value shape1_def)
  from claim u f have "\<forall>j<10. \<forall>a<784. \<forall>b<784.
      ?sigma ! j ! a ! b = fadd (?raw ! j ! a ! b) (Val (if a = b then (1::real) else 0))"
    by (meson zero_le_one)
  then have e: "?sigma ! 0 ! 0 ! 0 = fadd (?raw ! 0 ! 0 ! 0) (Val 1)"
    by simp
  have rows: "class_rows ?x ?y 0 = ?x" by (simp add: class_rows_def)
  have blk: "stored_covariance 784 ?x
      = replicate 784 (replicate 784 (Val (entry_variance (replicate 784 0))))"
    by (rule stored_covariance_one_row) simp_all
  have "?raw ! 0 ! 0 ! 0 = Val (entry_variance (replicate 784 0))"
    by (simp add: rows blk)
  moreover have "map2 (map2 (\<lambda>s m. fadd s (Val m))) (stored_covariance 784 ?x)
      (np_scale 3100 (np_identity 784)) ! 0 ! 0
      = fadd (stored_covariance 784 ?x ! 0 ! 0) (Val (if (0::nat) = 0 then 3100 else 0))"
    by (rule regularized_nth) (simp_all add: blk)
  then have "?sigma ! 0 ! 0 ! 0 = fadd (Val (entry_variance (replicate 784 0))) (Val 3100)"
    by (simp add: rows blk)
  ultimately show False using e by simp
qed

text \<open>
  C4, as amended. The fit operation takes the training vectors and the labels only;
  the number of classes (10) and the regularization constant (3100) are literals of the
  function, which performs no search for either. For every training set of
  784-dimensional vectors with one label per vector and at least one example it returns
  \<open>covariance[j] = raw_covariance[j] + 3100 * Identity(784)\<close> for every class \<open>j\<close>.
\<close>

theorem fit_regularization_constant_fixed:
  assumes "\<forall>r\<in>set x. length r = 784"
    and "length y = length x"
    and "y \<noteq> []"
  shows "\<exists>mu raw sigma pis.
     unregularized_fit x y = Inr (mu, raw, pis) \<and>
     fit_generative_model x y = Inr (mu, sigma, pis) \<and>
     length sigma = 10 \<and>
     (\<forall>j<10. \<forall>a<784. \<forall>b<784.
        sigma ! j ! a ! b = fadd (raw ! j ! a ! b) (Val (if a = b then 3100 else 0)))"
proof -
  have x: "x \<noteq> []" using assms(2,3) by auto
  have d: "shape1 x = 784" by (rule shape1_rows [OF assms(1) x])
  let ?mu = "map (\<lambda>l. np_mean 784 (class_rows x y l)) [0..<10]"
  let ?raw = "map (\<lambda>l. stored_covariance 784 (class_rows x y l)) [0..<10]"
  let ?sigma = "map (\<lambda>l. map2 (map2 (\<lambda>s m. fadd s (Val m))) (stored_covariance 784 (class_rows x y l))
                             (np_scale 3100 (np_identity 784))) [0..<10]"
  let ?pis = "map (\<lambda>l. real (count_list y l) / real (length y)) [0..<10]"
  have u: "unregularized_fit x y = Inr (?mu, ?raw, ?pis)"
    using assms(2,3) d by (simp add: unregularized_fit_value)
  have f: "fit_generative_model x y = Inr (?mu, ?sigma, ?pis)"
    using assms(2,3) d by (simp add: fit_generative_model_value)
  have e: "?sigma ! j ! a ! b = fadd (?raw ! j ! a ! b) (Val (if a = b then 3100 else 0))"
    if "j < 10" "a < 784" "b < 784" for j a b
  proof -
    have "map2 (map2 (\<lambda>s m. fadd s (Val m))) (stored_covariance 784 (class_rows x y j))
            (np_scale 3100 (np_identity 784)) ! a ! b
          = fadd (stored_covariance 784 (class_rows x y j) ! a ! b) (Val (if a = b then 3100 else 0))"
    proof (rule regularized_nth [OF that(2,3)])
      have len: "\<forall>r\<in>set (class_rows x y j). length r = 784"
        using assms(1) class_rows_subset by blast
      show "length (stored_covariance 784 (class_rows x y j)) = 784"
        by (rule length_stored_covariance [OF len]) simp
      show "length (stored_covariance 784 (class_rows x y j) ! a) = 784"
        by (rule length_stored_covariance_nth [OF len that(2)])
    qed
    then show ?thesis using that(1) by simp
  qed
  have l: "length ?sigma = 10" by simp
  from u f l e show ?thesis by blast
qed

theorem fit_regularization_constant_fixed_witness:
  "list_all (\<lambda>r. length r = 784) [replicate 784 (0::real)] \<and>
   length [0::nat] = length [replicate 784 (0::real)] \<and>
   [0::nat] \<noteq> [] \<and>
   (\<exists>mu raw sigma pis.
     unregularized_fit [replicate 784 0] [0] = Inr (mu, raw, pis) \<and>
     fit_generative_model [replicate 784 0] [0] = Inr (mu, sigma, pis) \<and>
     length sigma = 10 \<and>
     (\<forall>j<10. \<forall>a<784. \<forall>b<784.
        sigma ! j ! a ! b = fadd (raw ! j ! a ! b) (Val (if a = b then 3100 else 0))))"
proof -
  have h1: "\<forall>r\<in>set [replicate 784 (0::real)]. length r = 784" by simp
  have h2: "length [0::nat] = length [replicate 784 (0::real)]" by simp
  have h3: "[0::nat] \<noteq> []" by simp
  have a1: "list_all (\<lambda>r. length r = 784) [replicate 784 (0::real)]" by simp
  show ?thesis
    by (intro conjI a1 h2 h3 fit_regularization_constant_fixed [OF h1 h2 h3])
qed

text \<open>
  C5. For a training set of 784-dimensional vectors with at least one example of every
  class and every \<open>c > 0\<close>: adding \<open>c * Identity\<close> to the raw covariances of the
  fitter, with the fitter's own operation, gives for every class a finite, symmetric,
  positive-definite matrix whose eigenvalues are at least \<open>c\<close>; and the covariances
  the fitter returns are these matrices for its constant \<open>c = 3100\<close>.
\<close>

theorem regularized_covariance_positive_definite:
  assumes "\<forall>r\<in>set x. length r = 784"
    and "length y = length x"
    and "\<forall>j<10. j \<in> set y"
    and "0 < c"
  shows "\<exists>mu raw pis sigma_c sigma.
     unregularized_fit x y = Inr (mu, raw, pis) \<and>
     np_iadd 784 raw (np_scale c (np_identity 784)) = Inr sigma_c \<and>
     fit_generative_model x y = Inr (mu, sigma, pis) \<and>
     (\<forall>j<10.
        (\<exists>S. sigma_c ! j = map (map Val) S \<and> symmetric_matrix 784 S \<and>
              positive_definite 784 S \<and> eigenvalues_at_least 784 c S) \<and>
        (\<exists>S. sigma ! j = map (map Val) S \<and> symmetric_matrix 784 S \<and>
              positive_definite 784 S \<and> eigenvalues_at_least 784 3100 S))"
proof -
  have "(0::nat) \<in> set y" using assms(3) by simp
  then have y: "y \<noteq> []" by auto
  then have x: "x \<noteq> []" using assms(2) by auto
  have d: "shape1 x = 784" by (rule shape1_rows [OF assms(1) x])
  let ?reg = "\<lambda>c l. map2 (map2 (\<lambda>s m. fadd s (Val m))) (stored_covariance 784 (class_rows x y l))
                             (np_scale c (np_identity 784))"
  let ?mu = "map (\<lambda>l. np_mean 784 (class_rows x y l)) [0..<10]"
  let ?raw = "map (\<lambda>l. stored_covariance 784 (class_rows x y l)) [0..<10]"
  let ?pis = "map (\<lambda>l. real (count_list y l) / real (length y)) [0..<10]"
  have u: "unregularized_fit x y = Inr (?mu, ?raw, ?pis)"
    using assms(2) y d by (simp add: unregularized_fit_value)
  have f: "fit_generative_model x y = Inr (?mu, map (?reg 3100) [0..<10], ?pis)"
    using assms(2) y d by (simp add: fit_generative_model_value)
  have i: "np_iadd 784 ?raw (np_scale c (np_identity 784)) = Inr (map (?reg c) [0..<10])"
    by (simp add: np_iadd_def length_np_scale_identity o_def)
  have e: "(\<exists>S. map (?reg c) [0..<10] ! j = map (map Val) S \<and> symmetric_matrix 784 S \<and>
              positive_definite 784 S \<and> eigenvalues_at_least 784 c S) \<and>
        (\<exists>S. map (?reg 3100) [0..<10] ! j = map (map Val) S \<and> symmetric_matrix 784 S \<and>
              positive_definite 784 S \<and> eigenvalues_at_least 784 3100 S)"
    if j: "j < 10" for j
  proof -
    have ne: "class_rows x y j \<noteq> []"
      using assms(2,3) j by (intro class_rows_nonempty) simp_all
    have len: "\<forall>r\<in>set (class_rows x y j). length r = 784"
      using assms(1) class_rows_subset by blast
    from regularized_class_covariance [OF ne len _ assms(4)]
      regularized_class_covariance [OF ne len, of 3100] j
    show ?thesis by simp
  qed
  from u i f e show ?thesis by blast
qed

theorem regularized_covariance_positive_definite_witness:
  "list_all (\<lambda>r. length r = 784) two_per_class_data \<and>
   length two_per_class_labels = length two_per_class_data \<and>
   list_all (\<lambda>j. j \<in> set two_per_class_labels) [0..<10] \<and>
   (0::real) < 1/2 \<and>
   (\<exists>mu raw pis sigma_c sigma.
     unregularized_fit two_per_class_data two_per_class_labels = Inr (mu, raw, pis) \<and>
     np_iadd 784 raw (np_scale (1/2) (np_identity 784)) = Inr sigma_c \<and>
     fit_generative_model two_per_class_data two_per_class_labels = Inr (mu, sigma, pis) \<and>
     (\<forall>j<10.
        (\<exists>S. sigma_c ! j = map (map Val) S \<and> symmetric_matrix 784 S \<and>
              positive_definite 784 S \<and> eigenvalues_at_least 784 (1/2) S) \<and>
        (\<exists>S. sigma ! j = map (map Val) S \<and> symmetric_matrix 784 S \<and>
              positive_definite 784 S \<and> eigenvalues_at_least 784 3100 S)))"
proof -
  have h1: "\<forall>r\<in>set two_per_class_data. length r = 784"
    by (auto simp: two_per_class_data_def)
  have h2: "length two_per_class_labels = length two_per_class_data"
    by (simp add: two_per_class_data_def two_per_class_labels_def)
  have h3: "\<forall>j<10. j \<in> set two_per_class_labels"
    by (simp add: two_per_class_labels_def)
  have h4: "(0::real) < 1/2" by simp
  have a1: "list_all (\<lambda>r. length r = 784) two_per_class_data"
    using h1 by (simp only: list_all_iff)
  have a3: "list_all (\<lambda>j. j \<in> set two_per_class_labels) [0..<10]"
    using h3 by (simp add: list_all_iff)
  show ?thesis
    by (intro conjI a1 h2 a3 h4 regularized_covariance_positive_definite [OF h1 h2 h3 h4])
qed

text \<open>
  C8. The claim as stated fails: the fitter has no check for an empty class. With a
  single example of class 0, class 1 has no example, and the fitter returns its three
  arrays.
\<close>

theorem fit_empty_class_counterexample:
  "(1::nat) < 10 \<and> (1::nat) \<notin> set [0] \<and>
   \<not> isl (fit_generative_model [replicate 784 0] [0])"
  by (simp add: fit_generative_model_value shape1_def)

text \<open>
  C8, as amended. For every training set of 784-dimensional vectors with one label per
  vector and at least one example, in which some class \<open>j\<close> of \<open>0 .. 9\<close> has no
  example, the fitter raises no error: it returns the means, covariances and priors of
  all ten classes, and for the empty class the prior is 0 and every entry of the mean
  and of the covariance is NaN.
\<close>

theorem fit_generative_model_empty_class:
  assumes "\<forall>r\<in>set x. length r = 784"
    and "length y = length x"
    and "y \<noteq> []"
    and "j < 10"
    and "j \<notin> set y"
  shows "\<exists>mu sigma pis.
     fit_generative_model x y = Inr (mu, sigma, pis) \<and>
     length mu = 10 \<and> length sigma = 10 \<and> length pis = 10 \<and>
     pis ! j = 0 \<and>
     mu ! j = replicate 784 NaN \<and>
     sigma ! j = replicate 784 (replicate 784 NaN)"
proof -
  have x: "x \<noteq> []" using assms(2,3) by auto
  have d: "shape1 x = 784" by (rule shape1_rows [OF assms(1) x])
  have e: "class_rows x y j = []" by (rule class_rows_empty [OF assms(2,5)])
  let ?mu = "map (\<lambda>l. np_mean 784 (class_rows x y l)) [0..<10]"
  let ?sigma = "map (\<lambda>l. map2 (map2 (\<lambda>s m. fadd s (Val m))) (stored_covariance 784 (class_rows x y l))
                             (np_scale 3100 (np_identity 784))) [0..<10]"
  let ?pis = "map (\<lambda>l. real (count_list y l) / real (length y)) [0..<10]"
  have f: "fit_generative_model x y = Inr (?mu, ?sigma, ?pis)"
    using assms(2,3) d by (simp add: fit_generative_model_value)
  have "?pis ! j = 0" using assms(4,5) by simp
  moreover have "?mu ! j = replicate 784 NaN"
    using assms(4) by (simp add: e np_mean_empty)
  moreover have "?sigma ! j = replicate 784 (replicate 784 NaN)"
    using assms(4) by (simp add: e stored_covariance_empty regularized_matrix_nan)
  moreover have "length ?mu = 10" "length ?sigma = 10" "length ?pis = 10" by simp_all
  ultimately show ?thesis using f by blast
qed

theorem fit_generative_model_empty_class_witness:
  "list_all (\<lambda>r. length r = 784) [replicate 784 (0::real)] \<and>
   length [0::nat] = length [replicate 784 (0::real)] \<and>
   [0::nat] \<noteq> [] \<and> (1::nat) < 10 \<and> (1::nat) \<notin> set [0] \<and>
   (\<exists>mu sigma pis.
     fit_generative_model [replicate 784 0] [0] = Inr (mu, sigma, pis) \<and>
     length mu = 10 \<and> length sigma = 10 \<and> length pis = 10 \<and>
     pis ! 1 = 0 \<and>
     mu ! 1 = replicate 784 NaN \<and>
     sigma ! 1 = replicate 784 (replicate 784 NaN))"
proof -
  have h1: "\<forall>r\<in>set [replicate 784 (0::real)]. length r = 784" by simp
  have h2: "length [0::nat] = length [replicate 784 (0::real)]" by simp
  have h3: "[0::nat] \<noteq> []" by simp
  have h4: "(1::nat) < 10" by simp
  have h5: "(1::nat) \<notin> set [0]" by simp
  have a1: "list_all (\<lambda>r. length r = 784) [replicate 784 (0::real)]" by simp
  show ?thesis
    by (intro conjI a1 h2 h3 h4 h5 fit_generative_model_empty_class [OF h1 h2 h3 h4 h5])
qed

section \<open>Properties of the scoring cell\<close>

lemma fle_total: "a \<noteq> NaN \<Longrightarrow> b \<noteq> NaN \<Longrightarrow> fle a b \<or> fle b a"
  by (cases a; cases b) auto

lemma fle_trans: "fle a b \<Longrightarrow> fle b c \<Longrightarrow> fle a c"
  by (cases a; cases b; cases c) auto

lemma fle_refl: "a \<noteq> NaN \<Longrightarrow> fle a a"
  by (cases a) auto

lemma argmax_loop_first_maximum:
  assumes "i = length pre" and "mi < i" and "pre ! mi = mp"
    and "\<forall>j<i. fle (pre ! j) mp" and "\<forall>j<mi. \<not> fle mp (pre ! j)"
    and "\<forall>a\<in>set (pre @ as). a \<noteq> NaN"
  shows "argmax_loop as i mp mi < length (pre @ as) \<and>
         (\<forall>j<length (pre @ as). fle ((pre @ as) ! j) ((pre @ as) ! argmax_loop as i mp mi)) \<and>
         (\<forall>j<argmax_loop as i mp mi.
             \<not> fle ((pre @ as) ! argmax_loop as i mp mi) ((pre @ as) ! j))"
  using assms
proof (induction as arbitrary: pre i mp mi)
  case Nil
  then show ?case by simp
next
  case (Cons a as)
  have a: "a \<noteq> NaN" using Cons.prems(6) by simp
  have "pre ! mi \<in> set pre" using Cons.prems(1,2) by simp
  then have mp: "mp \<noteq> NaN" using Cons.prems(3,6) by auto
  have nan: "\<forall>b\<in>set ((pre @ [a]) @ as). b \<noteq> NaN" using Cons.prems(6) by simp
  show ?case
  proof (cases "fle a mp")
    case True
    have inv: "Suc i = length (pre @ [a])" "mi < Suc i" "(pre @ [a]) ! mi = mp"
      "\<forall>j<Suc i. fle ((pre @ [a]) ! j) mp" "\<forall>j<mi. \<not> fle mp ((pre @ [a]) ! j)"
      using Cons.prems True by (auto simp: nth_append less_Suc_eq)
    from Cons.IH [OF inv nan] True show ?thesis by simp
  next
    case False
    then have le: "fle mp a" using fle_total [OF a mp] by blast
    have b1: "\<forall>j<Suc i. fle ((pre @ [a]) ! j) a"
      using Cons.prems(1,4) le fle_refl [OF a] fle_trans
      by (auto simp: nth_append less_Suc_eq)
    have b2: "\<forall>j<i. \<not> fle a ((pre @ [a]) ! j)"
      using Cons.prems(1,4) False fle_trans
      by (auto simp: nth_append)
    have inv: "Suc i = length (pre @ [a])" "i < Suc i" "(pre @ [a]) ! i = a"
      using Cons.prems(1) by (auto simp: nth_append)
    from Cons.IH [OF inv b1 b2 nan] False a show ?thesis by simp
  qed
qed

lemma np_argmax_first_maximum:
  assumes "s \<noteq> []" and "\<forall>a\<in>set s. a \<noteq> NaN"
  shows "\<exists>r. np_argmax s = Inr r \<and> r < length s \<and>
             (\<forall>j<length s. fle (s ! j) (s ! r)) \<and> (\<forall>j<r. \<not> fle (s ! r) (s ! j))"
proof -
  from assms(1) obtain a as where s: "s = a # as" by (cases s) auto
  have a: "a \<noteq> NaN" using assms(2) s by simp
  have "argmax_loop as 1 a 0 < length ([a] @ as) \<and>
        (\<forall>j<length ([a] @ as). fle (([a] @ as) ! j) (([a] @ as) ! argmax_loop as 1 a 0)) \<and>
        (\<forall>j<argmax_loop as 1 a 0. \<not> fle (([a] @ as) ! argmax_loop as 1 a 0) (([a] @ as) ! j))"
    using assms(2) s fle_refl [OF a] by (intro argmax_loop_first_maximum) simp_all
  then show ?thesis using a by (simp add: s np_argmax_def)
qed

lemma fold_row_update_upt:
  assumes "n \<le> length s"
  shows "fold (\<lambda>i s. s[i := g i (s ! i)]) [0..<n] s = map (\<lambda>i. g i (s ! i)) [0..<n] @ drop n s"
  using assms
proof (induction n)
  case 0
  then show ?case by simp
next
  case (Suc n)
  then have n: "n < length s" by simp
  let ?t = "map (\<lambda>i. g i (s ! i)) [0..<n] @ drop n s"
  have tn: "?t ! n = s ! n" using n by (simp add: nth_append)
  have "fold (\<lambda>i s. s[i := g i (s ! i)]) [0..<Suc n] s = ?t[n := g n (?t ! n)]"
    using Suc by simp
  also have "\<dots> = map (\<lambda>i. g i (s ! i)) [0..<n] @ (drop n s)[0 := g n (s ! n)]"
    by (simp only: tn) (simp add: list_update_append)
  also have "(drop n s)[0 := g n (s ! n)] = g n (s ! n) # drop (Suc n) s"
    using n by (simp add: Cons_nth_drop_Suc [symmetric])
  finally show ?case by simp
qed

lemma score_row_loop_fold:
  assumes "label < length pis"
    and "\<forall>i\<in>set is. i < length test_data \<and> rv (test_data ! i) = Inr (l i)"
  shows "score_row_loop rv pis test_data label is score
         = Inr (fold (\<lambda>i s. s[i := (s ! i)[label := fadd (np_log (pis ! label)) (l i)]]) is score)"
  using assms
  by (induction "is" arbitrary: score) (simp_all add: row_at_def)

lemma score_row_loop_all_rows:
  assumes "label < length pis" and "length score = m" and "m \<le> length test_data"
    and "\<forall>i<m. rv (test_data ! i) = Inr (l i)"
  shows "score_row_loop rv pis test_data label [0..<m] score
         = Inr (map (\<lambda>i. (score ! i)[label := fadd (np_log (pis ! label)) (l i)]) [0..<m])"
proof -
  have "\<forall>i\<in>set [0..<m]. i < length test_data \<and> rv (test_data ! i) = Inr (l i)"
    using assms(3,4) by simp
  from score_row_loop_fold [OF assms(1) this]
  show ?thesis
    using assms(2)
    by (simp add: fold_row_update_upt
        [where g = "\<lambda>i r. r[label := fadd (np_log (pis ! label)) (l i)]"])
qed

lemma score_label_loop_entries:
  assumes "length score = m" and "\<forall>i<m. length (score ! i) = k" and "m \<le> length test_data"
    and "\<forall>label\<in>set labels. label < length mu \<and> label < length sigma \<and> label < length pis \<and>
           multivariate_normal (mu ! label) (sigma ! label) = Inr (rv label) \<and>
           (\<forall>i<m. rv label (test_data ! i) = Inr (l label i))"
  shows "\<exists>score'. score_label_loop multivariate_normal mu sigma pis test_data m labels score
            = Inr score' \<and> length score' = m \<and>
           (\<forall>i<m. length (score' ! i) = k \<and>
              (\<forall>j<k. score' ! i ! j =
                 (if j \<in> set labels then fadd (np_log (pis ! j)) (l j i) else score ! i ! j)))"
  using assms
proof (induction labels arbitrary: score)
  case Nil
  then show ?case by simp
next
  case (Cons label labels)
  let ?s1 = "map (\<lambda>i. (score ! i)[label := fadd (np_log (pis ! label)) (l label i)]) [0..<m]"
  have lab: "label < length mu" "label < length sigma" "label < length pis"
    "multivariate_normal (mu ! label) (sigma ! label) = Inr (rv label)"
    "\<forall>i<m. rv label (test_data ! i) = Inr (l label i)"
    using Cons.prems(4) by simp_all
  have row: "score_row_loop (rv label) pis test_data label [0..<m] score = Inr ?s1"
    by (rule score_row_loop_all_rows [OF lab(3) Cons.prems(1,3) lab(5)])
  have s1: "length ?s1 = m" "\<forall>i<m. length (?s1 ! i) = k"
    using Cons.prems(2) by simp_all
  have rest: "\<forall>label\<in>set labels. label < length mu \<and> label < length sigma \<and>
           label < length pis \<and>
           multivariate_normal (mu ! label) (sigma ! label) = Inr (rv label) \<and>
           (\<forall>i<m. rv label (test_data ! i) = Inr (l label i))"
    using Cons.prems(4) by simp
  from Cons.IH [OF s1 Cons.prems(3) rest] obtain score' where
    r: "score_label_loop multivariate_normal mu sigma pis test_data m labels ?s1 = Inr score'"
      "length score' = m"
      "\<forall>i<m. length (score' ! i) = k \<and>
          (\<forall>j<k. score' ! i ! j =
             (if j \<in> set labels then fadd (np_log (pis ! j)) (l j i) else ?s1 ! i ! j))"
    by blast
  have step: "score_label_loop multivariate_normal mu sigma pis test_data m (label # labels) score
      = Inr score'"
    using lab(1,2,4) row r(1) by (simp add: row_at_def)
  have ent: "score' ! i ! j =
      (if j \<in> set (label # labels) then fadd (np_log (pis ! j)) (l j i) else score ! i ! j)"
    if "i < m" "j < k" for i j
  proof -
    have "score' ! i ! j =
        (if j \<in> set labels then fadd (np_log (pis ! j)) (l j i) else ?s1 ! i ! j)"
      using r(3) that by blast
    moreover have "?s1 ! i ! j =
        (if j = label then fadd (np_log (pis ! label)) (l label i) else score ! i ! j)"
      using that Cons.prems(2) by (simp add: nth_list_update)
    ultimately show ?thesis by auto
  qed
  from step r(2,3) ent show ?case by blast
qed

section \<open>Claims about the scoring cell\<close>

text \<open>
  C2. Given ten class models for which SciPy builds the distributions, test vectors
  on which their log-densities are defined, and scores none of which is NaN, the cell
  returns; the score of test vector \<open>i\<close> for class \<open>j\<close> is
  \<open>log(pi[j])\<close> plus the log-density of the vector under \<open>(mu[j], sigma[j])\<close>; and
  the prediction for the vector is a class of maximal score such that every class of
  smaller index has a strictly smaller score.
\<close>

theorem score_cell_argmax:
  assumes "10 \<le> length mu" and "10 \<le> length sigma" and "10 \<le> length pis"
    and "length test_labels \<le> length test_data"
    and "\<forall>j<10. multivariate_normal (mu ! j) (sigma ! j) = Inr (rv j)"
    and "\<forall>j<10. \<forall>i<length test_labels. rv j (test_data ! i) = Inr (logpdf j i)"
    and "\<forall>j<10. \<forall>i<length test_labels. fadd (np_log (pis ! j)) (logpdf j i) \<noteq> NaN"
  shows "\<exists>score predictions.
     score_cell multivariate_normal mu sigma pis test_data test_labels = Inr (score, predictions) \<and>
     length score = length test_labels \<and>
     length predictions = length test_labels \<and>
     (\<forall>i<length test_labels.
        (\<forall>j<10. score ! i ! j = fadd (np_log (pis ! j)) (logpdf j i)) \<and>
        predictions ! i < 10 \<and>
        (\<forall>j<10. fle (score ! i ! j) (score ! i ! (predictions ! i))) \<and>
        (\<forall>j<predictions ! i. \<not> fle (score ! i ! (predictions ! i)) (score ! i ! j)))"
proof -
  let ?m = "length test_labels"
  let ?s0 = "replicate ?m (replicate 10 (Val 0))"
  have pre: "\<forall>label\<in>set [0..<10]. label < length mu \<and> label < length sigma \<and>
      label < length pis \<and>
      multivariate_normal (mu ! label) (sigma ! label) = Inr (rv label) \<and>
      (\<forall>i<?m. rv label (test_data ! i) = Inr (logpdf label i))"
    using assms(1,2,3,5,6) by simp
  have "\<exists>score'. score_label_loop multivariate_normal mu sigma pis test_data ?m [0..<10] ?s0
            = Inr score' \<and> length score' = ?m \<and>
           (\<forall>i<?m. length (score' ! i) = 10 \<and>
              (\<forall>j<10. score' ! i ! j =
                 (if j \<in> set [0..<10] then fadd (np_log (pis ! j)) (logpdf j i)
                  else ?s0 ! i ! j)))"
    by (rule score_label_loop_entries [OF _ _ assms(4) pre]) simp_all
  then obtain score where
    loop: "score_label_loop multivariate_normal mu sigma pis test_data ?m [0..<10] ?s0 = Inr score"
    and len: "length score = ?m"
    and rows: "\<forall>i<?m. length (score ! i) = 10"
    and ent: "\<forall>i<?m. \<forall>j<10. score ! i ! j = fadd (np_log (pis ! j)) (logpdf j i)"
    by auto
  have best: "\<exists>r. np_argmax (score ! i) = Inr r \<and> r < 10 \<and>
      (\<forall>j<10. fle (score ! i ! j) (score ! i ! r)) \<and> (\<forall>j<r. \<not> fle (score ! i ! r) (score ! i ! j))"
    if i: "i < ?m" for i
  proof -
    have l: "length (score ! i) = 10" using rows i by simp
    then have ne: "score ! i \<noteq> []" by auto
    have "\<forall>a\<in>set (score ! i). a \<noteq> NaN"
      using l ent assms(7) i by (auto simp: in_set_conv_nth)
    from np_argmax_first_maximum [OF ne this] show ?thesis by (simp add: l)
  qed
  let ?g = "\<lambda>i. projr (np_argmax (score ! i))"
  have g: "np_argmax (score ! i) = Inr (?g i)" if "i < ?m" for i
  proof -
    from best [OF that] obtain r where "np_argmax (score ! i) = Inr r" by blast
    then show ?thesis by simp
  qed
  have "comprehension (\<lambda>i. np_argmax (score ! i)) [0..<length score] = Inr (map ?g [0..<?m])"
    unfolding len
  proof (rule comprehension_all_right)
    fix i assume "i \<in> set [0..<?m]"
    then have "i < ?m" by simp
    then show "np_argmax (score ! i) = Inr (?g i)" by (rule g)
  qed
  then have cell: "score_cell multivariate_normal mu sigma pis test_data test_labels
      = Inr (score, map ?g [0..<?m])"
    by (simp add: score_cell_def Let_def loop)
  have props: "(\<forall>j<10. score ! i ! j = fadd (np_log (pis ! j)) (logpdf j i)) \<and>
        map ?g [0..<?m] ! i < 10 \<and>
        (\<forall>j<10. fle (score ! i ! j) (score ! i ! (map ?g [0..<?m] ! i))) \<and>
        (\<forall>j<map ?g [0..<?m] ! i. \<not> fle (score ! i ! (map ?g [0..<?m] ! i)) (score ! i ! j))"
    if i: "i < ?m" for i
  proof -
    from best [OF i] obtain r where r: "np_argmax (score ! i) = Inr r" "r < 10"
      "\<forall>j<10. fle (score ! i ! j) (score ! i ! r)" "\<forall>j<r. \<not> fle (score ! i ! r) (score ! i ! j)"
      by blast
    have "map ?g [0..<?m] ! i = r" using i by (simp add: r(1))
    then show ?thesis using ent i r(2,3,4) by simp
  qed
  have "length (map ?g [0..<?m]) = ?m" by simp
  with cell len props show ?thesis by blast
qed

theorem score_cell_argmax_witness:
  "(10::nat) \<le> length (replicate 10 ([] :: npfloat list)) \<and>
   (10::nat) \<le> length (replicate 10 ([] :: npfloat list list)) \<and>
   (10::nat) \<le> length [1/10, 1/10, 1/20, 1/5, 1/10, 1/5, 1/20, 1/20, 1/20, 1/10 :: real] \<and>
   length [7 :: nat] \<le> length [[0 :: real]] \<and>
   (\<exists>score predictions.
     score_cell (\<lambda>m c. Inr (\<lambda>t. Inr (Val 0))) (replicate 10 []) (replicate 10 [])
        [1/10, 1/10, 1/20, 1/5, 1/10, 1/5, 1/20, 1/20, 1/20, 1/10] [[0]] [7]
       = Inr (score, predictions) \<and>
     length score = length [7 :: nat] \<and>
     length predictions = length [7 :: nat] \<and>
     (\<forall>i<length [7 :: nat].
        (\<forall>j<10. score ! i ! j
            = fadd (np_log ([1/10, 1/10, 1/20, 1/5, 1/10, 1/5, 1/20, 1/20, 1/20, 1/10] ! j))
                (Val 0)) \<and>
        predictions ! i < 10 \<and>
        (\<forall>j<10. fle (score ! i ! j) (score ! i ! (predictions ! i))) \<and>
        (\<forall>j<predictions ! i. \<not> fle (score ! i ! (predictions ! i)) (score ! i ! j)))) \<and>
   (\<exists>score.
     score_cell (\<lambda>m c. Inr (\<lambda>t. Inr (Val 0))) (replicate 10 []) (replicate 10 [])
        [1/10, 1/10, 1/20, 1/5, 1/10, 1/5, 1/20, 1/20, 1/20, 1/10] [[0]] [7]
       = Inr (score, [3]))"
proof -
  let ?pis = "[1/10, 1/10, 1/20, 1/5, 1/10, 1/5, 1/20, 1/20, 1/20, 1/10] :: real list"
  have ev: "\<exists>score.
     score_cell (\<lambda>m c. Inr (\<lambda>t. Inr (Val 0))) (replicate 10 []) (replicate 10 [])
        [1/10, 1/10, 1/20, 1/5, 1/10, 1/5, 1/20, 1/20, 1/20, 1/10] [[0]] [7]
       = Inr (score, [3])"
    by (simp add: score_cell_def Let_def upt_conv_Cons row_at_def np_log_def np_argmax_def
        eval_nat_numeral)
  have h1: "(10::nat) \<le> length (replicate 10 ([] :: npfloat list))" by simp
  have h2: "(10::nat) \<le> length (replicate 10 ([] :: npfloat list list))" by simp
  have h3: "(10::nat) \<le> length ?pis" by simp
  have h4: "length [7 :: nat] \<le> length [[0 :: real]]" by simp
  have h5: "\<forall>j<10. (\<lambda>m c. Inr (\<lambda>t. Inr (Val 0)))
      (replicate 10 ([] :: npfloat list) ! j) (replicate 10 ([] :: npfloat list list) ! j)
        = (Inr ((\<lambda>j t. Inr (Val 0)) j) :: error + frozen_distribution)"
    by simp
  have h6: "\<forall>j<10. \<forall>i<length [7 :: nat].
      (\<lambda>j t. Inr (Val 0)) j ([[0 :: real]] ! i) = (Inr ((\<lambda>j i. Val 0) j i) :: error + npfloat)"
    by simp
  have pos: "\<forall>j<10. 0 < ?pis ! j"
    by (simp add: less_Suc_eq numeral_nat)
  have h7: "\<forall>j<10. \<forall>i<length [7 :: nat].
      fadd (np_log (?pis ! j)) ((\<lambda>j i. Val 0) j i) \<noteq> NaN"
    using pos by (simp add: np_log_def)
  show ?thesis
    by (intro conjI h1 h2 h3 h4 score_cell_argmax [OF h1 h2 h3 h4 h5 h6 h7] ev)
qed

end
